theory Spec2Isabelle
  imports Main
begin

section \<open>Data model\<close>

text \<open>
  The dictionary that \<open>Usable\<close> builds for one input line: thirteen text fields under fixed
  keys, inserted in the order of the table's columns. Nothing is converted: every value is
  the text cut from the line.
\<close>

record txn =
  Transaction_Id :: string
  Customer_Id :: string
  Customer_Name :: string
  Customer_Addr_Id :: string
  Product_Id :: string
  Product_Nm :: string
  ProductPrice :: string
  ProductQuantity :: string
  Status :: string
  Transaction_time_stamp :: string
  Ordered_Date :: string
  Shipment_Date :: string
  Delivered_Date :: string

text \<open>
  One row of the table \<open>Transaction\<close>, as \<open>Final_data\<close> hands it back: the thirteen
  columns of the record, the indicator \<open>ACTIVE_IND\<close> (the text \<open>Y\<close> or \<open>N\<close>) and
  the integer primary key \<open>Sequence\<close>.
\<close>

record row = txn +
  ACTIVE_IND :: string
  Sequence :: int

text \<open>The table is the list of its rows in the order \<open>SELECT *\<close> returns them (by rowid).\<close>

type_synonym table = "row list"

datatype error = FileNotFoundError | ValueError | OperationalError

section \<open>Reading a file: \<open>Execute\<close>\<close>

text \<open>
  Python's \<open>data.split('\n')\<close>: the text is cut at every newline; a text with \<open>n\<close>
  newlines gives \<open>n + 1\<close> pieces, so the empty text gives one empty piece and a text that
  ends in a newline gives a last piece that is empty.
\<close>

fun split_nl :: "string \<Rightarrow> string list" where
  "split_nl [] = [[]]"
| "split_nl (c # cs) =
     (if c = CHR 0x0A then [] # split_nl cs
      else (case split_nl cs of [] \<Rightarrow> [[c]] | l # ls \<Rightarrow> (c # l) # ls))"

text \<open>
  The file system is a map from file names to the text \<open>file.read()\<close> returns.
  \<open>open\<close> raises when the file is missing. \<open>data.remove('')\<close> deletes the first
  empty element of the list and raises \<open>ValueError\<close> when the list has none.
\<close>

definition Execute :: "(string \<Rightarrow> string option) \<Rightarrow> string \<Rightarrow> error + string list" where
  "Execute fs file_name =
     (case fs file_name of
        None \<Rightarrow> Inl FileNotFoundError
      | Some text \<Rightarrow>
          (let data = split_nl text
           in if [] \<in> set data then Inr (remove1 [] data) else Inl ValueError))"

section \<open>Decoding: \<open>Usable\<close>\<close>

text \<open>
  Python's \<open>i[a:b]\<close> for \<open>0 \<le> a \<le> b\<close>: both bounds are clamped to the length of the
  text, so a short line gives short or empty fields and never an error.
\<close>

definition slice :: "nat \<Rightarrow> nat \<Rightarrow> string \<Rightarrow> string" where
  "slice a b s = take (b - a) (drop a s)"

definition Usable_row :: "string \<Rightarrow> txn" where
  "Usable_row i =
     \<lparr> Transaction_Id = slice 0 6 i,
       Customer_Id = slice 6 12 i,
       Customer_Name = slice 12 32 i,
       Customer_Addr_Id = slice 32 37 i,
       Product_Id = slice 37 44 i,
       Product_Nm = slice 44 74 i,
       ProductPrice = slice 74 80 i,
       ProductQuantity = slice 80 84 i,
       Status = slice 84 96 i,
       Transaction_time_stamp = slice 96 116 i,
       Ordered_Date = slice 116 127 i,
       Shipment_Date = slice 127 138 i,
       Delivered_Date = slice 138 149 i \<rparr>"

fun Usable :: "string list \<Rightarrow> txn list" where
  "Usable [] = []"
| "Usable (i # data) = Usable_row i # Usable data"

section \<open>The SQL statements as SQLite reads them\<close>

text \<open>
  The program builds its SQL statements by pasting values into text, and what a statement
  does depends on how SQLite reads the pasted text. Three ways of reading are fixed by the
  form of the text and are modelled here; every other text is left to a parameter that
  stands for the SQLite library.

  The \<open>UPDATE\<close> pastes the three key values without quotes after \<open>=\<close>. A pasted
  text that, apart from blanks around it, is a run of at most 18 decimal digits is read as
  an integer; the column has text affinity, so the integer is turned into its decimal text
  without leading zeros and compared with the column for equality. A pasted text that is a
  letter followed by digits is read as a column name, and since the table has no such
  column the statement raises \<open>sqlite3.OperationalError\<close>.
\<close>

definition digit :: "char \<Rightarrow> bool" where
  "digit c = (c \<in> set ''0123456789'')"

definition letter :: "char \<Rightarrow> bool" where
  "letter c = (c \<in> set ''abcdefghijklmnopqrstuvwxyzABCDEFGHIJKLMNOPQRSTUVWXYZ'')"

definition trim :: "string \<Rightarrow> string" where
  "trim s = rev (dropWhile (\<lambda>c. c = CHR 0x20) (rev (dropWhile (\<lambda>c. c = CHR 0x20) s)))"

definition canonical :: "string \<Rightarrow> string" where
  "canonical w = (case dropWhile (\<lambda>c. c = CHR ''0'') w of [] \<Rightarrow> ''0'' | d # ds \<Rightarrow> d # ds)"

datatype pasted = Number string | Word | Other

definition sql_reads :: "string \<Rightarrow> pasted" where
  "sql_reads s =
     (let w = trim s
      in if w \<noteq> [] \<and> length w \<le> 18 \<and> list_all digit w then Number (canonical w)
         else if (case w of [] \<Rightarrow> False | c # ds \<Rightarrow> letter c \<and> ds \<noteq> [] \<and> list_all digit ds)
         then Word
         else Other)"

text \<open>
  The \<open>INSERT\<close> pastes \<open>str(tuple(...))\<close>, which writes every value as Python's
  \<open>repr\<close> does. A value of printable ASCII characters without a single quote is written
  between single quotes with every backslash doubled; SQLite reads that as a text literal
  and knows no backslash escapes, so it stores the value with its backslashes doubled.
\<close>

definition sql_quoted :: "string \<Rightarrow> bool" where
  "sql_quoted s =
     list_all (\<lambda>c. (0x20::nat) \<le> of_char c \<and> of_char c \<le> (0x7E::nat) \<and> c \<noteq> CHR 0x27) s"

definition stored :: "string \<Rightarrow> string" where
  "stored s = concat (map (\<lambda>c. if c = CHR 0x5C then [c, c] else [c]) s)"

definition values_quoted :: "txn \<Rightarrow> bool" where
  "values_quoted d =
     (sql_quoted (Transaction_Id d) \<and> sql_quoted (Customer_Id d) \<and> sql_quoted (Customer_Name d) \<and>
      sql_quoted (Customer_Addr_Id d) \<and> sql_quoted (Product_Id d) \<and> sql_quoted (Product_Nm d) \<and>
      sql_quoted (ProductPrice d) \<and> sql_quoted (ProductQuantity d) \<and> sql_quoted (Status d) \<and>
      sql_quoted (Transaction_time_stamp d) \<and> sql_quoted (Ordered_Date d) \<and>
      sql_quoted (Shipment_Date d) \<and> sql_quoted (Delivered_Date d))"

definition stored_values :: "txn \<Rightarrow> txn" where
  "stored_values d =
     \<lparr> Transaction_Id = stored (Transaction_Id d),
       Customer_Id = stored (Customer_Id d),
       Customer_Name = stored (Customer_Name d),
       Customer_Addr_Id = stored (Customer_Addr_Id d),
       Product_Id = stored (Product_Id d),
       Product_Nm = stored (Product_Nm d),
       ProductPrice = stored (ProductPrice d),
       ProductQuantity = stored (ProductQuantity d),
       Status = stored (Status d),
       Transaction_time_stamp = stored (Transaction_time_stamp d),
       Ordered_Date = stored (Ordered_Date d),
       Shipment_Date = stored (Shipment_Date d),
       Delivered_Date = stored (Delivered_Date d) \<rparr>"

text \<open>
  The plain values: a key is a decimal numeral without a leading zero, of at most 18
  digits, and no other field holds a single quote, a backslash or a character outside
  printable ASCII. On plain values both statements mean what they look like: the
  \<open>INSERT\<close> stores the thirteen texts as they are, and the \<open>WHERE\<close> compares the three
  key columns with the three pasted texts for equality.
\<close>

definition sql_number :: "string \<Rightarrow> bool" where
  "sql_number s = (s \<noteq> [] \<and> length s \<le> 18 \<and> hd s \<noteq> CHR ''0'' \<and> list_all digit s)"

definition sql_text :: "string \<Rightarrow> bool" where
  "sql_text s = (sql_quoted s \<and> list_all (\<lambda>c. c \<noteq> CHR 0x5C) s)"

definition sql_plain :: "txn \<Rightarrow> bool" where
  "sql_plain d =
     (sql_number (Transaction_Id d) \<and> sql_number (Customer_Id d) \<and> sql_number (Product_Id d) \<and>
      sql_text (Customer_Name d) \<and> sql_text (Customer_Addr_Id d) \<and> sql_text (Product_Nm d) \<and>
      sql_text (ProductPrice d) \<and> sql_text (ProductQuantity d) \<and> sql_text (Status d) \<and>
      sql_text (Transaction_time_stamp d) \<and> sql_text (Ordered_Date d) \<and>
      sql_text (Shipment_Date d) \<and> sql_text (Delivered_Date d))"

text \<open>
  The SQLite library, for the statements whose pasted text is read in none of the ways
  above. Whatever the text, the \<open>UPDATE\<close> is one statement that sets \<open>ACTIVE_IND\<close> to
  \<open>N\<close> on the rows its \<open>WHERE\<close> selects, and the \<open>INSERT\<close> is one statement that
  appends rows and leaves \<open>Sequence\<close> to SQLite; either may raise instead. So
  \<open>update_other\<close> gives, for the three pasted texts and the table, an error or the
  rows selected, and \<open>insert_other\<close> gives, for the record and the table, an error or
  the rows appended (their \<open>Sequence\<close> is set by \<open>Insert\<close> below).
\<close>

record sqlite3 =
  update_other :: "string \<Rightarrow> string \<Rightarrow> string \<Rightarrow> table \<Rightarrow> error + (row \<Rightarrow> bool)"
  insert_other :: "txn \<Rightarrow> table \<Rightarrow> error + row list"

section \<open>The table: \<open>Final_data\<close>, \<open>Insert\<close> and the retiring \<open>UPDATE\<close>\<close>

text \<open>
  \<open>Final_data\<close> runs \<open>SELECT * FROM 'Transaction'\<close>, with no \<open>WHERE\<close>, and turns every
  fetched tuple into a dictionary: the result is every row of the table, retired rows
  included. \<open>conn.commit()\<close> changes nothing a single connection can see and is left out.
\<close>

definition Final_data :: "table \<Rightarrow> row list" where
  "Final_data t = t"

text \<open>
  \<open>Sequence\<close> is an \<open>INTEGER PRIMARY KEY\<close> that the \<open>INSERT\<close> leaves out: SQLite gives
  the new row one more than the largest key in the table, and 1 in an empty table.
\<close>

definition next_Sequence :: "table \<Rightarrow> int" where
  "next_Sequence t = (if t = [] then 1 else Max (set (map Sequence t)) + 1)"

fun renumber :: "int \<Rightarrow> row list \<Rightarrow> row list" where
  "renumber n [] = []"
| "renumber n (r # rs) = r\<lparr>Sequence := n\<rparr> # renumber (n + 1) rs"

text \<open>
  \<open>Insert\<close> sets \<open>ACTIVE_IND\<close> to \<open>Y\<close> in the dictionary and pastes the dictionary's
  values in the order of its keys, which is the order of the columns the statement names.
  \<open>new_row\<close> is the row with given values, and \<open>Insert\<close> appends it with the values as
  SQLite stores them; an exception of the statement is the result \<open>Inl\<close>.
\<close>

definition new_row :: "txn \<Rightarrow> int \<Rightarrow> row" where
  "new_row dctnry n =
     \<lparr> Transaction_Id = Transaction_Id dctnry,
       Customer_Id = Customer_Id dctnry,
       Customer_Name = Customer_Name dctnry,
       Customer_Addr_Id = Customer_Addr_Id dctnry,
       Product_Id = Product_Id dctnry,
       Product_Nm = Product_Nm dctnry,
       ProductPrice = ProductPrice dctnry,
       ProductQuantity = ProductQuantity dctnry,
       Status = Status dctnry,
       Transaction_time_stamp = Transaction_time_stamp dctnry,
       Ordered_Date = Ordered_Date dctnry,
       Shipment_Date = Shipment_Date dctnry,
       Delivered_Date = Delivered_Date dctnry,
       ACTIVE_IND = ''Y'',
       Sequence = n \<rparr>"

definition Insert :: "sqlite3 \<Rightarrow> txn \<Rightarrow> table \<Rightarrow> error + table" where
  "Insert db dctnry t =
     (if values_quoted dctnry
      then Inr (t @ [new_row (stored_values dctnry) (next_Sequence t)])
      else (case insert_other db dctnry t of
              Inl e \<Rightarrow> Inl e
            | Inr rows \<Rightarrow> Inr (t @ renumber (next_Sequence t) rows)))"

text \<open>
  The statement \<open>UPDATE 'Transaction' SET ACTIVE_IND = 'N' WHERE Transaction_Id = ... and
  Customer_Id = ... and Product_Id = ...\<close> of \<open>Main_logic\<close>, with the three key values of
  the matched dictionary \<open>j\<close> pasted in. The \<open>WHERE\<close> names the key columns only, never
  \<open>Sequence\<close>. \<open>set_N\<close> is the effect of the statement on the rows it selects.
\<close>

definition set_N :: "(row \<Rightarrow> bool) \<Rightarrow> table \<Rightarrow> table" where
  "set_N P t = map (\<lambda>r. if P r then r\<lparr>ACTIVE_IND := ''N''\<rparr> else r) t"

definition retire_key :: "sqlite3 \<Rightarrow> row \<Rightarrow> table \<Rightarrow> error + table" where
  "retire_key db j t =
     (let a = sql_reads (Transaction_Id j); b = sql_reads (Customer_Id j);
          c = sql_reads (Product_Id j)
      in if a = Other \<or> b = Other \<or> c = Other
         then (case update_other db (Transaction_Id j) (Customer_Id j) (Product_Id j) t of
                 Inl e \<Rightarrow> Inl e
               | Inr P \<Rightarrow> Inr (set_N P t))
         else if a = Word \<or> b = Word \<or> c = Word then Inl OperationalError
         else Inr (set_N (\<lambda>r. Number (Transaction_Id r) = a \<and> Number (Customer_Id r) = b \<and>
                               Number (Product_Id r) = c) t))"

section \<open>\<open>Main_logic\<close> and \<open>processOnlineshopping\<close>\<close>

text \<open>
  The inner loop \<open>for j in final_data\<close>: it stops at the first dictionary of the snapshot
  whose three key fields equal the record's, sets \<open>flag\<close>, retires by that dictionary's
  key and inserts the record. The result is the flag and the table, or the exception of
  a statement.
\<close>

fun match_loop :: "sqlite3 \<Rightarrow> txn \<Rightarrow> row list \<Rightarrow> table \<Rightarrow> error + nat \<times> table" where
  "match_loop db dctnry [] t = Inr (0, t)"
| "match_loop db dctnry (j # final_data) t =
     (if Transaction_Id j = Transaction_Id dctnry \<and> Customer_Id j = Customer_Id dctnry \<and>
         Product_Id j = Product_Id dctnry
      then (case retire_key db j t of
              Inl e \<Rightarrow> Inl e
            | Inr t1 \<Rightarrow>
                (case Insert db dctnry t1 of
                   Inl e \<Rightarrow> Inl e
                 | Inr t2 \<Rightarrow> Inr (1, t2)))
      else match_loop db dctnry final_data t)"

fun Main_logic :: "sqlite3 \<Rightarrow> txn list \<Rightarrow> row list \<Rightarrow> table \<Rightarrow> error + table" where
  "Main_logic db [] final_data t = Inr t"
| "Main_logic db (dctnry # lst) final_data t =
     (case match_loop db dctnry final_data t of
        Inl e \<Rightarrow> Inl e
      | Inr (flag, t1) \<Rightarrow>
          (case (if flag = 0 then Insert db dctnry t1 else Inr t1) of
             Inl e \<Rightarrow> Inl e
           | Inr t2 \<Rightarrow> Main_logic db lst final_data t2))"

text \<open>The loop of the \<open>Day1.txt\<close> branch: \<open>for dctnry in lst: Insert(dctnry)\<close>.\<close>

fun Insert_all :: "sqlite3 \<Rightarrow> txn list \<Rightarrow> table \<Rightarrow> error + table" where
  "Insert_all db [] t = Inr t"
| "Insert_all db (dctnry # lst) t =
     (case Insert db dctnry t of
        Inl e \<Rightarrow> Inl e
      | Inr t1 \<Rightarrow> Insert_all db lst t1)"

definition processOnlineshopping ::
  "sqlite3 \<Rightarrow> (string \<Rightarrow> string option) \<Rightarrow> string \<Rightarrow> table \<Rightarrow> error + table" where
  "processOnlineshopping db fs file_name t =
     (case Execute fs file_name of
        Inl e \<Rightarrow> Inl e
      | Inr data \<Rightarrow>
          (let lst = Usable data
           in if file_name = ''Day1.txt'' then Insert_all db lst t
              else Main_logic db lst (Final_data t) t))"

text \<open>
  A lifetime of the table: \<open>main\<close> drops and creates it, which leaves it empty, and then
  calls \<open>processOnlineshopping\<close> once per file. \<open>runs\<close> is any such sequence of calls,
  each with the file system of its moment; an exception ends the sequence and the program.
\<close>

fun runs ::
  "sqlite3 \<Rightarrow> ((string \<Rightarrow> string option) \<times> string) list \<Rightarrow> table \<Rightarrow> error + table" where
  "runs db [] t = Inr t"
| "runs db ((fs, file_name) # rs) t =
     (case processOnlineshopping db fs file_name t of
        Inl e \<Rightarrow> Inl e
      | Inr t' \<Rightarrow> runs db rs t')"

definition main :: "sqlite3 \<Rightarrow> (string \<Rightarrow> string option) \<Rightarrow> error + table" where
  "main db fs = runs db [(fs, ''Day1.txt''), (fs, ''Day2.txt''), (fs, ''Day3.txt'')] []"

section \<open>Notions of the specification\<close>

text \<open>The business key of a record or of a row: transaction, customer and product.\<close>

definition business_key :: "'a txn_scheme \<Rightarrow> string \<times> string \<times> string" where
  "business_key r = (Transaction_Id r, Customer_Id r, Product_Id r)"

text \<open>The rows of the table that carry a given business key and are marked active.\<close>

definition active_rows :: "string \<times> string \<times> string \<Rightarrow> table \<Rightarrow> row list" where
  "active_rows k t = filter (\<lambda>r. business_key r = k \<and> ACTIVE_IND r = ''Y'') t"

text \<open>Retiring every row of a business key, and appending the active row of a record.\<close>

definition retire_rows :: "string \<times> string \<times> string \<Rightarrow> table \<Rightarrow> table" where
  "retire_rows k t = set_N (\<lambda>r. business_key r = k) t"

definition append_row :: "txn \<Rightarrow> table \<Rightarrow> table" where
  "append_row d t = t @ [new_row d (next_Sequence t)]"

text \<open>
  Every business key that occurs in the table has a row that is marked active.
\<close>

definition every_key_active :: "table \<Rightarrow> bool" where
  "every_key_active t = list_all (\<lambda>r. active_rows (business_key r) t \<noteq> []) t"

text \<open>
  A text made of lines: the lines joined by single newlines, which is what
  \<open>split_nl\<close> takes apart again.
\<close>

fun join_nl :: "string list \<Rightarrow> string" where
  "join_nl [] = []"
| "join_nl [l] = l"
| "join_nl (l # ls) = l @ CHR 0x0A # join_nl ls"

text \<open>A file system that holds one file.\<close>

definition one_file :: "string \<Rightarrow> string \<Rightarrow> string \<Rightarrow> string option" where
  "one_file name text f = (if f = name then Some text else None)"

text \<open>
  A sequence of runs in which every file that can be read holds plain records only.
\<close>

definition plain_runs :: "((string \<Rightarrow> string option) \<times> string) list \<Rightarrow> bool" where
  "plain_runs rs =
     list_all (\<lambda>(fs, file_name).
        case Execute fs file_name of Inl e \<Rightarrow> True | Inr data \<Rightarrow> list_all sql_plain (Usable data)) rs"


text \<open>
  What the two loops make of the table when every record is plain: each record retires the
  rows of its key if the snapshot holds a row with that key, and is appended as an active
  row (lemmas \<open>Main_logic_plain\<close> and \<open>Insert_all_plain\<close>).
\<close>

fun plain_logic :: "txn list \<Rightarrow> row list \<Rightarrow> table \<Rightarrow> table" where
  "plain_logic [] fd t = t"
| "plain_logic (d # lst) fd t =
     plain_logic lst fd
       (case find (\<lambda>j. business_key j = business_key d) fd of
          None \<Rightarrow> append_row d t
        | Some j \<Rightarrow> append_row d (retire_rows (business_key j) t))"

fun plain_inserts :: "txn list \<Rightarrow> table \<Rightarrow> table" where
  "plain_inserts [] t = t"
| "plain_inserts (d # lst) t = plain_inserts lst (append_row d t)"

text \<open>
  The later table keeps the rows of the earlier one in place, under their sequence
  numbers, and keeps the numbers increasing if they were.
\<close>

definition keeps_rows :: "table \<Rightarrow> table \<Rightarrow> bool" where
  "keeps_rows t t' =
     (length t \<le> length t' \<and> take (length t) (map Sequence t') = map Sequence t \<and>
      (sorted_wrt (<) (map Sequence t') \<or> \<not> sorted_wrt (<) (map Sequence t)))"

section \<open>Sample records\<close>

text \<open>
  Three lines of the fixed layout, 149 characters each, and the records they decode to.
  \<open>line_a\<close> and \<open>line_b\<close> share a business key; \<open>line_c\<close> has another one.
  These three are plain. \<open>line_t\<close> has a transaction id that begins with a letter.
\<close>

definition line_a :: string where
  "line_a =
     ''100001200001John Smith          400013000001Widget                        0019990002Ordered     2026-01-01 10:00:00 2026-01-01                       ''"

definition rec_a :: txn where
  "rec_a =
     \<lparr> Transaction_Id = ''100001'',
       Customer_Id = ''200001'',
       Customer_Name = ''John Smith          '',
       Customer_Addr_Id = ''40001'',
       Product_Id = ''3000001'',
       Product_Nm = ''Widget                        '',
       ProductPrice = ''001999'',
       ProductQuantity = ''0002'',
       Status = ''Ordered     '',
       Transaction_time_stamp = ''2026-01-01 10:00:00 '',
       Ordered_Date = ''2026-01-01 '',
       Shipment_Date = ''           '',
       Delivered_Date = ''           '' \<rparr>"

definition line_b :: string where
  "line_b =
     ''100001200001John Smith          400013000001Widget                        0019990005Shipped     2026-01-02 09:30:00 2026-01-01 2026-01-02            ''"

definition rec_b :: txn where
  "rec_b =
     \<lparr> Transaction_Id = ''100001'',
       Customer_Id = ''200001'',
       Customer_Name = ''John Smith          '',
       Customer_Addr_Id = ''40001'',
       Product_Id = ''3000001'',
       Product_Nm = ''Widget                        '',
       ProductPrice = ''001999'',
       ProductQuantity = ''0005'',
       Status = ''Shipped     '',
       Transaction_time_stamp = ''2026-01-02 09:30:00 '',
       Ordered_Date = ''2026-01-01 '',
       Shipment_Date = ''2026-01-02 '',
       Delivered_Date = ''           '' \<rparr>"

definition line_c :: string where
  "line_c =
     ''100002200002Mary Jones          400023000002Gadget                        0004500001Ordered     2026-01-02 11:15:00 2026-01-02                       ''"

definition rec_c :: txn where
  "rec_c =
     \<lparr> Transaction_Id = ''100002'',
       Customer_Id = ''200002'',
       Customer_Name = ''Mary Jones          '',
       Customer_Addr_Id = ''40002'',
       Product_Id = ''3000002'',
       Product_Nm = ''Gadget                        '',
       ProductPrice = ''000450'',
       ProductQuantity = ''0001'',
       Status = ''Ordered     '',
       Transaction_time_stamp = ''2026-01-02 11:15:00 '',
       Ordered_Date = ''2026-01-02 '',
       Shipment_Date = ''           '',
       Delivered_Date = ''           '' \<rparr>"

definition line_t :: string where
  "line_t =
     ''T00001200003Ann Brown           400033000003Gizmo                         0007250003Ordered     2026-01-03 08:45:00 2026-01-03                       ''"

definition rec_t :: txn where
  "rec_t =
     \<lparr> Transaction_Id = ''T00001'',
       Customer_Id = ''200003'',
       Customer_Name = ''Ann Brown           '',
       Customer_Addr_Id = ''40003'',
       Product_Id = ''3000003'',
       Product_Nm = ''Gizmo                         '',
       ProductPrice = ''000725'',
       ProductQuantity = ''0003'',
       Status = ''Ordered     '',
       Transaction_time_stamp = ''2026-01-03 08:45:00 '',
       Ordered_Date = ''2026-01-03 '',
       Shipment_Date = ''           '',
       Delivered_Date = ''           '' \<rparr>"

text \<open>
  A library that refuses every statement left to it. The examples below need some value
  of type \<open>sqlite3\<close>; their statements are read in the ways modelled above, so none of
  them reaches the library, and the facts about the samples hold for every library.
\<close>

definition sqlite3_refuses :: sqlite3 where
  "sqlite3_refuses =
     \<lparr> update_other = (\<lambda>a b c t. Inl OperationalError),
       insert_other = (\<lambda>d t. Inl OperationalError) \<rparr>"

section \<open>Lemmas on reading pasted text\<close>

lemma digit_not_blank: "digit c \<Longrightarrow> c \<noteq> CHR 0x20"
  by (auto simp: digit_def)

lemma trim_digits: "list_all digit s \<Longrightarrow> trim s = s"
proof -
  assume d: "list_all digit s"
  have 1: "dropWhile (\<lambda>c. c = CHR 0x20) s = s"
    using d by (cases s) (auto simp: digit_not_blank)
  have "list_all digit (rev s)" using d by (simp add: list_all_iff)
  then have 2: "dropWhile (\<lambda>c. c = CHR 0x20) (rev s) = rev s"
    by (cases "rev s") (auto simp: digit_not_blank)
  show ?thesis by (simp add: trim_def 1 2)
qed

lemma canonical_no_leading_zero: "s \<noteq> [] \<Longrightarrow> hd s \<noteq> CHR ''0'' \<Longrightarrow> canonical s = s"
  by (cases s) (simp_all add: canonical_def)

lemma sql_number_reads: "sql_number s \<Longrightarrow> sql_reads s = Number s"
  by (simp add: sql_number_def sql_reads_def trim_digits canonical_no_leading_zero)

lemma stored_no_backslash: "list_all (\<lambda>c. c \<noteq> CHR 0x5C) s \<Longrightarrow> stored s = s"
  by (induction s) (simp_all add: stored_def)

lemma sql_text_stored: "sql_text s \<Longrightarrow> stored s = s"
  by (simp add: sql_text_def stored_no_backslash)

lemma sql_text_quoted: "sql_text s \<Longrightarrow> sql_quoted s"
  by (simp add: sql_text_def)

lemma digit_text:
  "digit c \<Longrightarrow> (0x20::nat) \<le> of_char c \<and> of_char c \<le> (0x7E::nat) \<and> c \<noteq> CHR 0x27 \<and> c \<noteq> CHR 0x5C"
  by (auto simp: digit_def)

lemma sql_number_text: "sql_number s \<Longrightarrow> sql_text s"
  by (auto simp: sql_number_def sql_text_def sql_quoted_def list_all_iff dest: digit_text)

lemma sql_plain_quoted: "sql_plain d \<Longrightarrow> values_quoted d"
  by (simp add: sql_plain_def values_quoted_def sql_text_quoted sql_number_text)

lemma sql_plain_stored: "sql_plain d \<Longrightarrow> stored_values d = d"
  by (simp add: sql_plain_def stored_values_def sql_text_stored sql_number_text)

lemma sql_plain_keys:
  "sql_plain d \<Longrightarrow>
     sql_number (Transaction_Id d) \<and> sql_number (Customer_Id d) \<and> sql_number (Product_Id d)"
  by (simp add: sql_plain_def)

section \<open>Lemmas on the two statements\<close>

lemma Insert_plain: "sql_plain d \<Longrightarrow> Insert db d t = Inr (append_row d t)"
  by (simp add: Insert_def sql_plain_quoted sql_plain_stored append_row_def)

lemma Insert_Inr:
  "Insert db d t = Inr t' \<Longrightarrow> \<exists>rows. t' = t @ renumber (next_Sequence t) rows"
proof (cases "values_quoted d")
  case True
  assume "Insert db d t = Inr t'"
  with True have "t' = t @ renumber (next_Sequence t) [new_row (stored_values d) 0]"
    by (auto simp: Insert_def new_row_def)
  then show ?thesis by blast
next
  case False
  assume "Insert db d t = Inr t'"
  with False show ?thesis
    by (auto simp: Insert_def split: sum.splits)
qed

lemma retire_key_plain:
  assumes "sql_number (Transaction_Id j)" "sql_number (Customer_Id j)" "sql_number (Product_Id j)"
  shows "retire_key db j t = Inr (retire_rows (business_key j) t)"
  using assms
  by (simp add: retire_key_def sql_number_reads retire_rows_def business_key_def Let_def)

lemma retire_key_Inr: "retire_key db j t = Inr t' \<Longrightarrow> \<exists>P. t' = set_N P t"
  by (auto simp: retire_key_def Let_def split: if_splits sum.splits)

lemma length_set_N: "length (set_N P t) = length t"
  by (simp add: set_N_def)

lemma Sequence_set_N: "map Sequence (set_N P t) = map Sequence t"
  by (simp add: set_N_def)

lemma set_N_Nil_iff: "set_N P t = [] \<longleftrightarrow> t = []"
  by (simp add: set_N_def)

lemma next_Sequence_set_N: "next_Sequence (set_N P t) = next_Sequence t"
  by (simp add: next_Sequence_def Sequence_set_N set_N_Nil_iff)

lemma set_N_nth:
  "i < length t \<Longrightarrow> set_N P t ! i = t ! i \<or> set_N P t ! i = (t ! i)\<lparr>ACTIVE_IND := ''N''\<rparr>"
  by (simp add: set_N_def)

lemma next_Sequence_gt: "r \<in> set t \<Longrightarrow> Sequence r < next_Sequence t"
proof -
  assume r: "r \<in> set t"
  then have "Sequence r \<le> Max (set (map Sequence t))" by simp
  with r show ?thesis by (auto simp: next_Sequence_def)
qed

lemma length_renumber: "length (renumber n rows) = length rows"
  by (induction rows arbitrary: n) simp_all

lemma sorted_append_renumber:
  "sorted_wrt (<) (map Sequence t) \<Longrightarrow> \<forall>r\<in>set t. Sequence r < n \<Longrightarrow>
     sorted_wrt (<) (map Sequence (t @ renumber n rows))"
proof (induction rows arbitrary: t n)
  case Nil
  then show ?case by simp
next
  case (Cons r rows)
  have "sorted_wrt (<) (map Sequence ((t @ [r\<lparr>Sequence := n\<rparr>]) @ renumber (n + 1) rows))"
    by (rule Cons.IH) (use Cons.prems in \<open>auto simp: sorted_wrt_append\<close>)
  then show ?case by simp
qed

section \<open>Rows are kept\<close>

lemma keeps_rows_refl: "keeps_rows t t"
  by (simp add: keeps_rows_def)

lemma keeps_rows_trans: "keeps_rows t u \<Longrightarrow> keeps_rows u v \<Longrightarrow> keeps_rows t v"
proof -
  assume tu: "keeps_rows t u" and uv: "keeps_rows u v"
  have "take (length t) (map Sequence v) = take (length t) (take (length u) (map Sequence v))"
    using tu by (simp add: keeps_rows_def min_def)
  also have "\<dots> = map Sequence t"
    using tu uv by (simp add: keeps_rows_def)
  finally show ?thesis
    using tu uv by (auto simp: keeps_rows_def)
qed

lemma keeps_rows_set_N: "keeps_rows t (set_N P t)"
  by (simp add: keeps_rows_def length_set_N Sequence_set_N)

lemma keeps_rows_append: "keeps_rows t (t @ renumber (next_Sequence t) rows)"
proof -
  have "sorted_wrt (<) (map Sequence (t @ renumber (next_Sequence t) rows))"
    if "sorted_wrt (<) (map Sequence t)"
    using that by (rule sorted_append_renumber) (simp add: next_Sequence_gt)
  then show ?thesis by (auto simp: keeps_rows_def)
qed

lemma keeps_rows_Insert: "Insert db d t = Inr t' \<Longrightarrow> keeps_rows t t'"
  using Insert_Inr keeps_rows_append by blast

lemma keeps_rows_retire_key: "retire_key db j t = Inr t' \<Longrightarrow> keeps_rows t t'"
  using retire_key_Inr keeps_rows_set_N by blast

lemma keeps_rows_match_loop: "match_loop db d fd t = Inr (flag, t') \<Longrightarrow> keeps_rows t t'"
proof (induction fd)
  case Nil
  then show ?case by (simp add: keeps_rows_refl)
next
  case (Cons j fd)
  then show ?case
    by (auto split: if_splits sum.splits
        intro: keeps_rows_trans [OF keeps_rows_retire_key keeps_rows_Insert])
qed

lemma keeps_rows_Main_logic: "Main_logic db lst fd t = Inr t' \<Longrightarrow> keeps_rows t t'"
proof (induction lst arbitrary: t)
  case Nil
  then show ?case by (simp add: keeps_rows_refl)
next
  case (Cons d lst)
  from Cons.prems obtain flag t1 t2 where
    m: "match_loop db d fd t = Inr (flag, t1)"
    and i: "(if flag = 0 then Insert db d t1 else Inr t1) = Inr t2"
    and r: "Main_logic db lst fd t2 = Inr t'"
    by (auto split: sum.splits prod.splits)
  have "keeps_rows t t1" using m by (rule keeps_rows_match_loop)
  moreover have "keeps_rows t1 t2"
    using i by (auto split: if_splits intro: keeps_rows_refl keeps_rows_Insert)
  moreover have "keeps_rows t2 t'" using r by (rule Cons.IH)
  ultimately show ?case by (blast intro: keeps_rows_trans)
qed

lemma keeps_rows_Insert_all: "Insert_all db lst t = Inr t' \<Longrightarrow> keeps_rows t t'"
proof (induction lst arbitrary: t)
  case Nil
  then show ?case by (simp add: keeps_rows_refl)
next
  case (Cons d lst)
  then show ?case
    by (auto split: sum.splits intro: keeps_rows_trans [OF keeps_rows_Insert])
qed

lemma keeps_rows_processOnlineshopping:
  "processOnlineshopping db fs file_name t = Inr t' \<Longrightarrow> keeps_rows t t'"
  by (auto simp: processOnlineshopping_def Let_def split: sum.splits if_splits
      intro: keeps_rows_Insert_all keeps_rows_Main_logic)

lemma keeps_rows_runs: "runs db rs t = Inr t' \<Longrightarrow> keeps_rows t t'"
proof (induction rs arbitrary: t)
  case Nil
  then show ?case by (simp add: keeps_rows_refl)
next
  case (Cons r rs)
  obtain fs f where r: "r = (fs, f)" by (cases r)
  from Cons.prems obtain u where u: "processOnlineshopping db fs f t = Inr u"
    and rest: "runs db rs u = Inr t'"
    by (auto simp: r split: sum.splits)
  show ?case
    using keeps_rows_processOnlineshopping [OF u] Cons.IH [OF rest] by (rule keeps_rows_trans)
qed

lemma main_sorted: "main db fs = Inr t \<Longrightarrow> sorted_wrt (<) (map Sequence t)"
  using keeps_rows_runs [of db "[(fs, ''Day1.txt''), (fs, ''Day2.txt''), (fs, ''Day3.txt'')]" "[]" t]
  by (simp add: main_def keeps_rows_def)

lemma Insert_all_prefix: "Insert_all db lst t = Inr t' \<Longrightarrow> take (length t) t' = t"
proof (induction lst arbitrary: t)
  case Nil
  then show ?case by simp
next
  case (Cons d lst)
  from Cons.prems obtain t1 where i: "Insert db d t = Inr t1" and r: "Insert_all db lst t1 = Inr t'"
    by (auto split: sum.splits)
  from i obtain rows where t1: "t1 = t @ renumber (next_Sequence t) rows"
    using Insert_Inr by blast
  from r have "take (length t1) t' = t1" by (rule Cons.IH)
  then have "take (length t) (take (length t1) t') = take (length t) t1" by simp
  then show ?case by (simp add: t1 min_def)
qed

lemma Main_logic_Nil_snapshot: "Main_logic db lst [] t = Insert_all db lst t"
  by (induction lst arbitrary: t) (simp_all split: sum.splits)

section \<open>Retiring a key and appending a row\<close>

lemma retire_rows_map:
  "retire_rows k t = map (\<lambda>r. if business_key r = k then r\<lparr>ACTIVE_IND := ''N''\<rparr> else r) t"
  by (simp add: retire_rows_def set_N_def)

lemma length_retire_rows: "length (retire_rows k t) = length t"
  by (simp add: retire_rows_def length_set_N)

lemma Sequence_retire_rows: "map Sequence (retire_rows k t) = map Sequence t"
  by (simp add: retire_rows_def Sequence_set_N)

lemma next_Sequence_retire_rows: "next_Sequence (retire_rows k t) = next_Sequence t"
  by (simp add: retire_rows_def next_Sequence_set_N)

lemma Sequence_new_row: "Sequence (new_row d n) = n"
  by (simp add: new_row_def)

lemma business_key_new_row: "business_key (new_row d n) = business_key d"
  by (simp add: new_row_def business_key_def)

lemma ACTIVE_IND_new_row: "ACTIVE_IND (new_row d n) = ''Y''"
  by (simp add: new_row_def)

lemma business_key_ACTIVE_IND_update:
  "business_key (r\<lparr>ACTIVE_IND := x\<rparr>) = business_key r"
  by (simp add: business_key_def)


lemma next_Sequence_append_row: "next_Sequence (append_row d t) = next_Sequence t + 1"
proof (cases "t = []")
  case True
  then show ?thesis by (simp add: next_Sequence_def append_row_def Sequence_new_row)
next
  case False
  then have "Max (insert (next_Sequence t) (set (map Sequence t))) = next_Sequence t"
    by (subst Max_insert) (auto simp: next_Sequence_def)
  then show ?thesis using False
    by (simp add: append_row_def Sequence_new_row next_Sequence_def)
qed

lemma retire_rows_append: "retire_rows k (t @ u) = retire_rows k t @ retire_rows k u"
  by (simp add: retire_rows_map)

lemma retire_rows_idem: "retire_rows k (retire_rows k t) = retire_rows k t"
  by (simp add: retire_rows_map business_key_ACTIVE_IND_update)

lemma active_rows_retire_rows: "active_rows k (retire_rows k t) = []"
proof (induction t)
  case Nil
  then show ?case by (simp add: active_rows_def retire_rows_map)
next
  case (Cons r t)
  have "active_rows k (retire_rows k (r # t)) =
      active_rows k [if business_key r = k then r\<lparr>ACTIVE_IND := ''N''\<rparr> else r] @
      active_rows k (retire_rows k t)"
    by (simp add: active_rows_def retire_rows_map)
  moreover have "active_rows k [if business_key r = k then r\<lparr>ACTIVE_IND := ''N''\<rparr> else r] = []"
    by (cases "business_key r = k") (simp_all add: active_rows_def business_key_def)
  ultimately show ?case by (simp add: Cons.IH)
qed

lemma find_key_None:
  "find (\<lambda>j. business_key j = k) fd = None \<longleftrightarrow> \<not> (\<exists>j\<in>set fd. business_key j = k)"
  by (auto simp: find_None_iff)

lemma find_key_Some:
  "find (\<lambda>j. business_key j = k) fd = Some j \<Longrightarrow> j \<in> set fd \<and> business_key j = k"
  by (auto simp: find_Some_iff)

section \<open>The loops on plain records\<close>

lemma match_loop_find:
  "match_loop db d fd t =
     (case find (\<lambda>j. business_key j = business_key d) fd of
        None \<Rightarrow> Inr (0, t)
      | Some j \<Rightarrow>
          (case retire_key db j t of
             Inl e \<Rightarrow> Inl e
           | Inr t1 \<Rightarrow>
               (case Insert db d t1 of
                  Inl e \<Rightarrow> Inl e
                | Inr t2 \<Rightarrow> Inr (1, t2))))"
  by (induction fd) (auto simp: business_key_def)

lemma match_loop_flag:
  "match_loop db d fd t = Inr (flag, t') \<Longrightarrow>
     flag = (if \<exists>j\<in>set fd. business_key j = business_key d then 1 else 0)"
  by (induction fd) (auto simp: business_key_def split: if_splits sum.splits)

lemma retire_key_matched_plain:
  "sql_plain d \<Longrightarrow> business_key j = business_key d \<Longrightarrow>
     retire_key db j t = Inr (retire_rows (business_key j) t)"
  by (rule retire_key_plain) (auto simp: business_key_def dest: sql_plain_keys)

lemma Main_logic_Cons_plain:
  "sql_plain d \<Longrightarrow>
   Main_logic db (d # lst) fd t =
     Main_logic db lst fd
       (case find (\<lambda>j. business_key j = business_key d) fd of
          None \<Rightarrow> append_row d t
        | Some j \<Rightarrow> append_row d (retire_rows (business_key j) t))"
  by (auto simp: match_loop_find Insert_plain retire_key_matched_plain
      split: option.splits dest: find_key_Some)

lemma Main_logic_plain:
  "\<forall>d\<in>set lst. sql_plain d \<Longrightarrow> Main_logic db lst fd t = Inr (plain_logic lst fd t)"
proof (induction lst arbitrary: t)
  case Nil
  then show ?case by simp
next
  case (Cons d lst)
  then show ?case
    by (simp add: Main_logic_Cons_plain del: Main_logic.simps(2))
qed

lemma Insert_all_plain:
  "\<forall>d\<in>set lst. sql_plain d \<Longrightarrow> Insert_all db lst t = Inr (plain_inserts lst t)"
  by (induction lst arbitrary: t) (simp_all add: Insert_plain)



section \<open>Every key keeps an active row\<close>

lemma every_key_active_iff:
  "every_key_active t \<longleftrightarrow>
     (\<forall>r\<in>set t. \<exists>r'\<in>set t. business_key r' = business_key r \<and> ACTIVE_IND r' = ''Y'')"
  by (auto simp: every_key_active_def list_all_iff active_rows_def filter_empty_conv)

lemma every_key_active_append_row:
  "every_key_active t \<Longrightarrow> every_key_active (append_row d t)"
  unfolding every_key_active_iff append_row_def
  by (auto simp: business_key_new_row ACTIVE_IND_new_row)

lemma every_key_active_retire_append:
  assumes "every_key_active t"
  shows "every_key_active (append_row d (retire_rows (business_key d) t))"
  unfolding every_key_active_iff
proof
  let ?u = "retire_rows (business_key d) t"
  fix r assume "r \<in> set (append_row d ?u)"
  then consider "r = new_row d (next_Sequence ?u)" | "r \<in> set ?u"
    by (auto simp: append_row_def)
  then show "\<exists>r'\<in>set (append_row d ?u). business_key r' = business_key r \<and> ACTIVE_IND r' = ''Y''"
  proof cases
    case 1
    then show ?thesis
      by (auto simp: append_row_def business_key_new_row ACTIVE_IND_new_row)
  next
    case 2
    then obtain r0 where r0: "r0 \<in> set t" "business_key r0 = business_key r"
      by (auto simp: retire_rows_map business_key_ACTIVE_IND_update split: if_splits)
    show ?thesis
    proof (cases "business_key r = business_key d")
      case True
      then show ?thesis
        by (auto simp: append_row_def business_key_new_row ACTIVE_IND_new_row)
    next
      case False
      from assms r0 obtain r' where r': "r' \<in> set t" "business_key r' = business_key r"
        "ACTIVE_IND r' = ''Y''"
        unfolding every_key_active_iff by metis
      with False have "r' \<in> set ?u"
        by (auto simp: retire_rows_map image_iff)
      with r' show ?thesis by (auto simp: append_row_def)
    qed
  qed
qed

lemma every_key_active_plain_logic:
  "every_key_active t \<Longrightarrow> every_key_active (plain_logic lst fd t)"
proof (induction lst arbitrary: t)
  case Nil
  then show ?case by simp
next
  case (Cons d lst)
  have "every_key_active
      (case find (\<lambda>j. business_key j = business_key d) fd of
         None \<Rightarrow> append_row d t
       | Some j \<Rightarrow> append_row d (retire_rows (business_key j) t))"
    using Cons.prems every_key_active_retire_append [of t d]
    by (auto split: option.splits dest: find_key_Some intro: every_key_active_append_row)
  then show ?case by (simp add: Cons.IH)
qed

lemma every_key_active_plain_inserts:
  "every_key_active t \<Longrightarrow> every_key_active (plain_inserts lst t)"
  by (induction lst arbitrary: t) (simp_all add: every_key_active_append_row)

lemma every_key_active_runs:
  "plain_runs rs \<Longrightarrow> runs db rs t = Inr t' \<Longrightarrow> every_key_active t \<Longrightarrow> every_key_active t'"
proof (induction rs arbitrary: t)
  case Nil
  then show ?case by simp
next
  case (Cons r rs)
  obtain fs f where r: "r = (fs, f)" by (cases r)
  from Cons.prems(2) obtain u where u: "processOnlineshopping db fs f t = Inr u"
    and rest: "runs db rs u = Inr t'"
    by (auto simp: r split: sum.splits)
  from u obtain data where data: "Execute fs f = Inr data"
    by (auto simp: processOnlineshopping_def split: sum.splits)
  with Cons.prems(1) have plain: "\<forall>d\<in>set (Usable data). sql_plain d" and prs: "plain_runs rs"
    by (simp_all add: plain_runs_def r list_all_iff)
  have "u = plain_inserts (Usable data) t \<or> u = plain_logic (Usable data) (Final_data t) t"
    using u data plain
    by (auto simp: processOnlineshopping_def Let_def Insert_all_plain Main_logic_plain
        split: if_splits)
  with Cons.prems(3) have "every_key_active u"
    by (auto intro: every_key_active_plain_inserts every_key_active_plain_logic)
  with prs rest show ?case by (rule Cons.IH)
qed

lemma key_present_iff_active:
  assumes "plain_runs rs" and "runs db rs [] = Inr t"
  shows "(\<exists>j\<in>set t. business_key j = k) \<longleftrightarrow> active_rows k t \<noteq> []"
proof -
  have "every_key_active t"
    using assms by (rule every_key_active_runs) (simp add: every_key_active_def)
  then show ?thesis
    unfolding every_key_active_iff
    by (auto simp: active_rows_def filter_empty_conv)
qed

section \<open>Lemmas on slicing and splitting\<close>

lemma slice_nth: "b \<le> length s \<Longrightarrow> slice a b s = map ((!) s) [a..<b]"
proof (rule nth_equalityI)
  assume b: "b \<le> length s"
  show len: "length (slice a b s) = length (map ((!) s) [a..<b])"
    using b by (simp add: slice_def)
  fix i assume "i < length (slice a b s)"
  then have i: "i < b - a" using len by simp
  then have "slice a b s ! i = s ! (a + i)"
    using b by (simp add: slice_def)
  moreover have "map ((!) s) [a..<b] ! i = s ! (a + i)"
    using i by simp
  ultimately show "slice a b s ! i = map ((!) s) [a..<b] ! i" by simp
qed

lemma slice_append: "a \<le> b \<Longrightarrow> b \<le> c \<Longrightarrow> slice a b s @ slice b c s = slice a c s"
proof -
  assume ab: "a \<le> b" and bc: "b \<le> c"
  have "take (c - a) (drop a s) = take (b - a) (drop a s) @ take (c - b) (drop (b - a) (drop a s))"
    using ab bc by (metis take_add le_add_diff_inverse diff_diff_cancel diff_le_mono add_diff_cancel_left' Nat.diff_diff_eq add.commute le_trans ordered_cancel_comm_monoid_diff_class.add_diff_inverse diff_add_inverse2 Nat.add_diff_assoc2 diff_add)
  then show ?thesis using ab by (simp add: slice_def)
qed

lemma Usable_map: "Usable data = map Usable_row data"
  by (induction data) simp_all

lemma split_nl_nonempty: "split_nl s \<noteq> []"
  by (induction s) (auto split: list.splits)

lemma split_nl_line: "CHR 0x0A \<notin> set l \<Longrightarrow> split_nl l = [l]"
  by (induction l) auto

lemma split_nl_append: "CHR 0x0A \<notin> set l \<Longrightarrow> split_nl (l @ CHR 0x0A # rest) = l # split_nl rest"
  by (induction l) auto

lemma split_join: "ls \<noteq> [] \<Longrightarrow> \<forall>l\<in>set ls. CHR 0x0A \<notin> set l \<Longrightarrow> split_nl (join_nl ls) = ls"
  by (induction ls rule: join_nl.induct) (auto simp: split_nl_line split_nl_append)

lemma Execute_join_nl:
  assumes "fs name = Some (join_nl ls)" and "ls \<noteq> []" and "\<forall>l\<in>set ls. CHR 0x0A \<notin> set l"
  shows "Execute fs name = (if [] \<in> set ls then Inr (remove1 [] ls) else Inl ValueError)"
  using assms by (simp add: Execute_def split_join)

lemma one_file_same: "one_file name text name = Some text"
  by (simp add: one_file_def)

lemma Execute_lines:
  assumes "ls \<noteq> []" and "\<forall>l\<in>set ls. CHR 0x0A \<notin> set l"
  shows "Execute (one_file name (join_nl ls)) name =
           (if [] \<in> set ls then Inr (remove1 [] ls) else Inl ValueError)"
  using assms by (intro Execute_join_nl) (simp_all add: one_file_def)

lemma Execute_one_file:
  "Execute (one_file name text) name =
     (if [] \<in> set (split_nl text) then Inr (remove1 [] (split_nl text)) else Inl ValueError)"
  by (simp add: Execute_def one_file_def)


section \<open>The sample records evaluated\<close>

text \<open>
  The first three sample records are plain; the sample lines decode to the sample records.
\<close>

lemma samples_sql_plain: "sql_plain rec_a" "sql_plain rec_b" "sql_plain rec_c"
  by (simp_all add: sql_plain_def sql_number_def sql_text_def sql_quoted_def digit_def
      rec_a_def rec_b_def rec_c_def)

lemma Usable_row_samples:
  "Usable_row line_a = rec_a" "Usable_row line_b = rec_b" "Usable_row line_c = rec_c"
  "Usable_row line_t = rec_t"
  by (simp_all add: Usable_row_def slice_def line_a_def line_b_def line_c_def line_t_def
      rec_a_def rec_b_def rec_c_def rec_t_def)

lemma no_newline_samples:
  "CHR 0x0A \<notin> set line_a" "CHR 0x0A \<notin> set line_b" "CHR 0x0A \<notin> set line_c"
  "CHR 0x0A \<notin> set line_t"
  by (simp_all add: line_a_def line_b_def line_c_def line_t_def)

lemma lines_ne_empty: "line_a \<noteq> []" "line_b \<noteq> []" "line_c \<noteq> []" "line_t \<noteq> []"
  by (simp_all add: line_a_def line_b_def line_c_def line_t_def)

lemma Execute_samples:
  "Execute (one_file name (line_a @ [CHR 0x0A])) name = Inr [line_a]"
  "Execute (one_file name (line_b @ [CHR 0x0A])) name = Inr [line_b]"
  "Execute (one_file name (line_t @ [CHR 0x0A])) name = Inr [line_t]"
  "Execute (one_file name (line_a @ CHR 0x0A # line_b @ [CHR 0x0A])) name = Inr [line_a, line_b]"
  "Execute (one_file name (line_b @ CHR 0x0A # line_c @ [CHR 0x0A])) name = Inr [line_b, line_c]"
  using Execute_lines [of "[line_a, []]" name] Execute_lines [of "[line_b, []]" name]
    Execute_lines [of "[line_t, []]" name]
    Execute_lines [of "[line_a, line_b, []]" name] Execute_lines [of "[line_b, line_c, []]" name]
  by (simp_all add: no_newline_samples lines_ne_empty lines_ne_empty [symmetric])

lemma key_samples:
  "business_key rec_a = (''100001'', ''200001'', ''3000001'')"
  "business_key rec_b = (''100001'', ''200001'', ''3000001'')"
  "business_key rec_c = (''100002'', ''200002'', ''3000002'')"
  "business_key rec_t = (''T00001'', ''200003'', ''3000003'')"
  by (simp_all add: business_key_def rec_a_def rec_b_def rec_c_def rec_t_def)

lemmas table_eval =
  plain_logic.simps plain_inserts.simps append_row_def retire_rows_map next_Sequence_def
  Final_data_def business_key_new_row business_key_ACTIVE_IND_update Sequence_new_row
  ACTIVE_IND_new_row key_samples active_rows_def

lemma Insert_all_samples:
  "Insert_all db [rec_a] [] = Inr [new_row rec_a 1]"
  "Insert_all db [rec_a, rec_b] [] = Inr [new_row rec_a 1, new_row rec_b 2]"
  "Insert_all db [rec_a, rec_c] [] = Inr [new_row rec_a 1, new_row rec_c 2]"
  "Insert_all db [rec_b] [new_row rec_a 1] = Inr [new_row rec_a 1, new_row rec_b 2]"
  by (simp_all add: Insert_all_plain samples_sql_plain table_eval del: Insert_all.simps)

lemma Main_logic_samples:
  "Main_logic db [rec_b] [new_row rec_a 1] [new_row rec_a 1] =
     Inr [(new_row rec_a 1)\<lparr>ACTIVE_IND := ''N''\<rparr>, new_row rec_b 2]"
  "Main_logic db [rec_b, rec_c] [new_row rec_a 1] [new_row rec_a 1] =
     Inr [(new_row rec_a 1)\<lparr>ACTIVE_IND := ''N''\<rparr>, new_row rec_b 2, new_row rec_c 3]"
  "Main_logic db [rec_a, rec_b] [new_row rec_a 1] [new_row rec_a 1] =
     Inr [(new_row rec_a 1)\<lparr>ACTIVE_IND := ''N''\<rparr>, (new_row rec_a 2)\<lparr>ACTIVE_IND := ''N''\<rparr>,
          new_row rec_b 3]"
  "Main_logic db [rec_a]
     [(new_row rec_a 1)\<lparr>ACTIVE_IND := ''N''\<rparr>, new_row rec_b 2, new_row rec_c 3]
     [(new_row rec_a 1)\<lparr>ACTIVE_IND := ''N''\<rparr>, new_row rec_b 2, new_row rec_c 3] =
     Inr [(new_row rec_a 1)\<lparr>ACTIVE_IND := ''N''\<rparr>, (new_row rec_b 2)\<lparr>ACTIVE_IND := ''N''\<rparr>,
          new_row rec_c 3, new_row rec_a 4]"
  "Main_logic db [rec_b] [] [] = Inr [new_row rec_b 1]"
  by (simp_all add: Main_logic_plain samples_sql_plain table_eval del: Main_logic.simps)

text \<open>
  Keys that are numerals but not plain: with a leading zero or with blanks after the
  digits the \<open>UPDATE\<close> compares the column with the numeral's value, finds no row of
  the key and changes nothing. A backslash in a value is stored twice.
\<close>

lemma retire_key_leading_zero:
  "retire_key db (new_row (rec_a\<lparr>Transaction_Id := ''000123''\<rparr>) 1)
     [new_row (rec_a\<lparr>Transaction_Id := ''000123''\<rparr>) 1] =
   Inr [new_row (rec_a\<lparr>Transaction_Id := ''000123''\<rparr>) 1]"
  by (simp add: retire_key_def new_row_def rec_a_def sql_reads_def trim_def digit_def
      canonical_def set_N_def Let_def)

lemma retire_key_padded:
  "retire_key db (new_row (rec_a\<lparr>Transaction_Id := ''12    ''\<rparr>) 1)
     [new_row (rec_a\<lparr>Transaction_Id := ''12    ''\<rparr>) 1] =
   Inr [new_row (rec_a\<lparr>Transaction_Id := ''12    ''\<rparr>) 1]"
  by (simp add: retire_key_def new_row_def rec_a_def sql_reads_def trim_def digit_def
      canonical_def set_N_def Let_def)

lemma stored_backslash: "stored [CHR ''a'', CHR 0x5C, CHR ''b''] = [CHR ''a'', CHR 0x5C, CHR 0x5C, CHR ''b'']"
  by (simp add: stored_def)



section \<open>The record decoder\<close>

text \<open>
  C5: for every input line the decoder is a total, pure function, and the record it builds
  holds the contiguous pieces of the line at the stated offsets, nothing trimmed, checked
  or converted: \<open>transaction_id[0:6]\<close>, \<open>customer_id[6:12]\<close>, \<open>customer_name[12:32]\<close>,
  \<open>customer_addr_id[32:37]\<close>, \<open>product_id[37:44]\<close>, \<open>product_name[44:74]\<close>,
  \<open>product_price[74:80]\<close>, \<open>product_quantity[80:84]\<close>, \<open>status[84:96]\<close>,
  \<open>transaction_timestamp[96:116]\<close>, \<open>ordered_date[116:127]\<close>,
  \<open>shipment_date[127:138]\<close> and \<open>delivered_date[138:149]\<close>. Each field is what is left
  of the line after dropping the characters before its offset, cut to its width; on a line
  of 149 characters or more it is the characters at exactly its positions; on every line,
  short ones too, the thirteen fields put end to end are the first 149 characters of the
  line; and \<open>Usable\<close> decodes the lines one by one, in order.
\<close>

theorem Usable_row_slices:
  "Usable_row i =
     \<lparr> Transaction_Id = take 6 i,
       Customer_Id = take 6 (drop 6 i),
       Customer_Name = take 20 (drop 12 i),
       Customer_Addr_Id = take 5 (drop 32 i),
       Product_Id = take 7 (drop 37 i),
       Product_Nm = take 30 (drop 44 i),
       ProductPrice = take 6 (drop 74 i),
       ProductQuantity = take 4 (drop 80 i),
       Status = take 12 (drop 84 i),
       Transaction_time_stamp = take 20 (drop 96 i),
       Ordered_Date = take 11 (drop 116 i),
       Shipment_Date = take 11 (drop 127 i),
       Delivered_Date = take 11 (drop 138 i) \<rparr> \<and>
   (149 \<le> length i \<longrightarrow>
      Usable_row i =
        \<lparr> Transaction_Id = map ((!) i) [0..<6],
          Customer_Id = map ((!) i) [6..<12],
          Customer_Name = map ((!) i) [12..<32],
          Customer_Addr_Id = map ((!) i) [32..<37],
          Product_Id = map ((!) i) [37..<44],
          Product_Nm = map ((!) i) [44..<74],
          ProductPrice = map ((!) i) [74..<80],
          ProductQuantity = map ((!) i) [80..<84],
          Status = map ((!) i) [84..<96],
          Transaction_time_stamp = map ((!) i) [96..<116],
          Ordered_Date = map ((!) i) [116..<127],
          Shipment_Date = map ((!) i) [127..<138],
          Delivered_Date = map ((!) i) [138..<149] \<rparr>) \<and>
   Transaction_Id (Usable_row i) @ Customer_Id (Usable_row i) @ Customer_Name (Usable_row i) @
   Customer_Addr_Id (Usable_row i) @ Product_Id (Usable_row i) @ Product_Nm (Usable_row i) @
   ProductPrice (Usable_row i) @ ProductQuantity (Usable_row i) @ Status (Usable_row i) @
   Transaction_time_stamp (Usable_row i) @ Ordered_Date (Usable_row i) @
   Shipment_Date (Usable_row i) @ Delivered_Date (Usable_row i) = take 149 i \<and>
   Usable data = map Usable_row data"
proof (intro conjI impI)
  show "Usable_row i =
     \<lparr> Transaction_Id = take 6 i,
       Customer_Id = take 6 (drop 6 i),
       Customer_Name = take 20 (drop 12 i),
       Customer_Addr_Id = take 5 (drop 32 i),
       Product_Id = take 7 (drop 37 i),
       Product_Nm = take 30 (drop 44 i),
       ProductPrice = take 6 (drop 74 i),
       ProductQuantity = take 4 (drop 80 i),
       Status = take 12 (drop 84 i),
       Transaction_time_stamp = take 20 (drop 96 i),
       Ordered_Date = take 11 (drop 116 i),
       Shipment_Date = take 11 (drop 127 i),
       Delivered_Date = take 11 (drop 138 i) \<rparr>"
    by (simp add: Usable_row_def slice_def)
next
  assume "149 \<le> length i"
  then show "Usable_row i =
        \<lparr> Transaction_Id = map ((!) i) [0..<6],
          Customer_Id = map ((!) i) [6..<12],
          Customer_Name = map ((!) i) [12..<32],
          Customer_Addr_Id = map ((!) i) [32..<37],
          Product_Id = map ((!) i) [37..<44],
          Product_Nm = map ((!) i) [44..<74],
          ProductPrice = map ((!) i) [74..<80],
          ProductQuantity = map ((!) i) [80..<84],
          Status = map ((!) i) [84..<96],
          Transaction_time_stamp = map ((!) i) [96..<116],
          Ordered_Date = map ((!) i) [116..<127],
          Shipment_Date = map ((!) i) [127..<138],
          Delivered_Date = map ((!) i) [138..<149] \<rparr>"
    unfolding Usable_row_def
    by (simp only: slice_nth [symmetric, of _ i])
next
  have "slice 0 6 i @ slice 6 12 i @ slice 12 32 i @ slice 32 37 i @ slice 37 44 i @
        slice 44 74 i @ slice 74 80 i @ slice 80 84 i @ slice 84 96 i @ slice 96 116 i @
        slice 116 127 i @ slice 127 138 i @ slice 138 149 i = slice 0 149 i"
    by (simp add: slice_append)
  then show "Transaction_Id (Usable_row i) @ Customer_Id (Usable_row i) @ Customer_Name (Usable_row i) @
   Customer_Addr_Id (Usable_row i) @ Product_Id (Usable_row i) @ Product_Nm (Usable_row i) @
   ProductPrice (Usable_row i) @ ProductQuantity (Usable_row i) @ Status (Usable_row i) @
   Transaction_time_stamp (Usable_row i) @ Ordered_Date (Usable_row i) @
   Shipment_Date (Usable_row i) @ Delivered_Date (Usable_row i) = take 149 i"
    by (simp add: Usable_row_def) (simp add: slice_def)
next
  show "Usable data = map Usable_row data" by (rule Usable_map)
qed

theorem Usable_row_slices_witness:
  "149 \<le> length line_a \<and> Usable_row line_a = rec_a \<and>
   Usable [line_a, line_c] = [rec_a, rec_c]"
  using Usable_row_slices [of line_a "[line_a, line_c]"] Usable_row_slices [of line_c "[]"]
  by (simp add: line_a_def line_c_def rec_a_def rec_c_def upt_conv_Cons)

section \<open>The batch loader\<close>

text \<open>
  C4, as the code has it: for every input text of newline-separated lines, \<open>Execute\<close>
  deletes exactly one empty line, the first one, and \<open>Usable\<close> decodes every other line,
  further empty lines among them, in the original order; the loader raises \<open>ValueError\<close>
  when the text has no empty line at all, and raises in no other case once the file is
  there.
\<close>

theorem Execute_removes_first_empty_line:
  assumes "fs file_name = Some (join_nl ls)" and "ls \<noteq> []"
    and "\<forall>l\<in>set ls. CHR 0x0A \<notin> set l"
  shows "map_sum id Usable (Execute fs file_name) =
           (if [] \<in> set ls then Inr (map Usable_row (remove1 [] ls)) else Inl ValueError)"
  using assms by (simp add: Execute_join_nl [of fs file_name ls] Usable_map)

theorem Execute_removes_first_empty_line_witness:
  "one_file ''Day2.txt'' (join_nl [line_a, [], line_c, []]) ''Day2.txt'' =
     Some (join_nl [line_a, [], line_c, []]) \<and>
   map_sum id Usable (Execute (one_file ''Day2.txt'' (join_nl [line_a, [], line_c, []])) ''Day2.txt'') =
     Inr [rec_a, rec_c, Usable_row []] \<and>
   map_sum id Usable (Execute (one_file ''Day2.txt'' (join_nl [line_a, line_c])) ''Day2.txt'') =
     Inl ValueError"
  using
    Execute_removes_first_empty_line [of "one_file ''Day2.txt'' (join_nl [line_a, [], line_c, []])"
      "''Day2.txt''" "[line_a, [], line_c, []]"]
    Execute_removes_first_empty_line [of "one_file ''Day2.txt'' (join_nl [line_a, line_c])"
      "''Day2.txt''" "[line_a, line_c]"]
  by (simp add: one_file_def no_newline_samples lines_ne_empty lines_ne_empty [symmetric]
      Usable_row_samples)

text \<open>
  As the specification words it, the loader would drop every blank line and accept a text
  without one. A file that holds one record and no final newline is rejected; and in a
  file with a blank line between two records the blank line at the end survives and is
  decoded to a record of empty fields.
\<close>

theorem Execute_counterexample:
  "map_sum id Usable (Execute (one_file ''Day2.txt'' line_a) ''Day2.txt'') = Inl ValueError \<and>
   map_sum id Usable
     (Execute (one_file ''Day2.txt'' (line_a @ [CHR 0x0A, CHR 0x0A] @ line_c @ [CHR 0x0A])) ''Day2.txt'') =
     Inr [rec_a, rec_c, Usable_row []] \<and>
   Transaction_Id (Usable_row []) = []"
proof -
  have 1: "Execute (one_file ''Day2.txt'' line_a) ''Day2.txt'' = Inl ValueError"
    using Execute_lines [of "[line_a]" "''Day2.txt''"]
    by (simp add: no_newline_samples lines_ne_empty lines_ne_empty [symmetric])
  have 2: "Execute (one_file ''Day2.txt'' (line_a @ [CHR 0x0A, CHR 0x0A] @ line_c @ [CHR 0x0A])) ''Day2.txt'' =
            Inr [line_a, line_c, []]"
    using Execute_lines [of "[line_a, [], line_c, []]" "''Day2.txt''"]
    by (simp add: no_newline_samples lines_ne_empty lines_ne_empty [symmetric])
  show ?thesis
    by (simp only: 1 2) (simp add: Usable_row_samples, simp add: Usable_row_def slice_def)
qed

section \<open>Retiring a matched row\<close>

text \<open>
  C3, as the code has it: when a batch record matches a row of the snapshot, the retirement
  is the \<open>UPDATE\<close> with that row's three key values pasted into its \<open>WHERE\<close>. When the
  three values are plain numerals, it sets the indicator to \<open>N\<close> on every row of the
  table that carries the matched row's business key, the matched row among them, and
  leaves every row with another business key as it is. Whatever the values are, a
  retirement that does not raise changes no field other than the indicator, which it sets
  to \<open>N\<close> or leaves, and adds or removes no row.
\<close>

theorem retire_key_frame:
  "(sql_number (Transaction_Id j) \<and> sql_number (Customer_Id j) \<and> sql_number (Product_Id j) \<longrightarrow>
      retire_key db j t = Inr (retire_rows (business_key j) t) \<and>
      length (retire_rows (business_key j) t) = length t \<and>
      (\<forall>i<length t.
         (business_key (t ! i) = business_key j \<longrightarrow>
            retire_rows (business_key j) t ! i = (t ! i)\<lparr>ACTIVE_IND := ''N''\<rparr>) \<and>
         (business_key (t ! i) \<noteq> business_key j \<longrightarrow>
            retire_rows (business_key j) t ! i = t ! i))) \<and>
   (retire_key db j t = Inr t' \<longrightarrow>
      length t' = length t \<and>
      (\<forall>i<length t. t' ! i = t ! i \<or> t' ! i = (t ! i)\<lparr>ACTIVE_IND := ''N''\<rparr>)) \<and>
   (find (\<lambda>j. business_key j = business_key d) fd = Some j \<longrightarrow>
      match_loop db d fd t =
        (case retire_key db j t of
           Inl e \<Rightarrow> Inl e
         | Inr t1 \<Rightarrow>
             (case Insert db d t1 of
                Inl e \<Rightarrow> Inl e
              | Inr t2 \<Rightarrow> Inr (1, t2))))"
proof (intro conjI impI)
  assume "sql_number (Transaction_Id j) \<and> sql_number (Customer_Id j) \<and> sql_number (Product_Id j)"
  then show "retire_key db j t = Inr (retire_rows (business_key j) t)"
    by (simp add: retire_key_plain)
next
  show "length (retire_rows (business_key j) t) = length t"
    by (rule length_retire_rows)
next
  show "\<forall>i<length t.
         (business_key (t ! i) = business_key j \<longrightarrow>
            retire_rows (business_key j) t ! i = (t ! i)\<lparr>ACTIVE_IND := ''N''\<rparr>) \<and>
         (business_key (t ! i) \<noteq> business_key j \<longrightarrow>
            retire_rows (business_key j) t ! i = t ! i)"
    by (simp add: retire_rows_map)
next
  assume "retire_key db j t = Inr t'"
  then obtain P where "t' = set_N P t" using retire_key_Inr by blast
  then show "length t' = length t"
    and "\<forall>i<length t. t' ! i = t ! i \<or> t' ! i = (t ! i)\<lparr>ACTIVE_IND := ''N''\<rparr>"
    by (simp_all add: length_set_N set_N_nth)
next
  assume "find (\<lambda>j. business_key j = business_key d) fd = Some j"
  then show "match_loop db d fd t =
        (case retire_key db j t of
           Inl e \<Rightarrow> Inl e
         | Inr t1 \<Rightarrow>
             (case Insert db d t1 of
                Inl e \<Rightarrow> Inl e
              | Inr t2 \<Rightarrow> Inr (1, t2)))"
    by (simp add: match_loop_find)
qed

theorem retire_key_frame_witness:
  "sql_number (Transaction_Id (new_row rec_a 1)) \<and> sql_number (Customer_Id (new_row rec_a 1)) \<and>
   sql_number (Product_Id (new_row rec_a 1)) \<and>
   retire_key sqlite3_refuses (new_row rec_a 1) [new_row rec_a 1, new_row rec_b 2, new_row rec_c 3] =
     Inr [(new_row rec_a 1)\<lparr>ACTIVE_IND := ''N''\<rparr>, (new_row rec_b 2)\<lparr>ACTIVE_IND := ''N''\<rparr>,
          new_row rec_c 3] \<and>
   match_loop sqlite3_refuses rec_a [new_row rec_a 1, new_row rec_b 2, new_row rec_c 3]
       [new_row rec_a 1, new_row rec_b 2, new_row rec_c 3] =
     Inr (1, [(new_row rec_a 1)\<lparr>ACTIVE_IND := ''N''\<rparr>, (new_row rec_b 2)\<lparr>ACTIVE_IND := ''N''\<rparr>,
              new_row rec_c 3, new_row rec_a 4])"
proof -
  let ?t = "[new_row rec_a 1, new_row rec_b 2, new_row rec_c 3]"
  let ?u = "[(new_row rec_a 1)\<lparr>ACTIVE_IND := ''N''\<rparr>, (new_row rec_b 2)\<lparr>ACTIVE_IND := ''N''\<rparr>,
             new_row rec_c 3]"
  have k: "sql_number (Transaction_Id (new_row rec_a 1)) \<and>
      sql_number (Customer_Id (new_row rec_a 1)) \<and> sql_number (Product_Id (new_row rec_a 1))"
    using sql_plain_keys [OF samples_sql_plain(1)] by (simp add: new_row_def)
  have f: "find (\<lambda>j. business_key j = business_key rec_a) ?t = Some (new_row rec_a 1)"
    by (simp add: business_key_new_row)
  have r: "retire_rows (business_key (new_row rec_a 1)) ?t = ?u"
    by (simp add: table_eval)
  have i: "Insert sqlite3_refuses rec_a ?u = Inr (?u @ [new_row rec_a 4])"
    by (simp add: Insert_plain samples_sql_plain table_eval)
  from retire_key_frame [of "new_row rec_a 1" sqlite3_refuses ?t ?u rec_a ?t] k f
  have 1: "retire_key sqlite3_refuses (new_row rec_a 1) ?t =
      Inr (retire_rows (business_key (new_row rec_a 1)) ?t)"
    and 2: "match_loop sqlite3_refuses rec_a ?t ?t =
        (case retire_key sqlite3_refuses (new_row rec_a 1) ?t of
           Inl e \<Rightarrow> Inl e
         | Inr t1 \<Rightarrow>
             (case Insert sqlite3_refuses rec_a t1 of
                Inl e \<Rightarrow> Inl e
              | Inr t2 \<Rightarrow> Inr (1, t2)))"
    by blast+
  from 1 r have 3: "retire_key sqlite3_refuses (new_row rec_a 1) ?t = Inr ?u" by simp
  from 2 have "match_loop sqlite3_refuses rec_a ?t ?t = Inr (1, ?u @ [new_row rec_a 4])"
    by (simp only: 3 i sum.case)
  with k 3 show ?thesis by simp
qed

text \<open>
  As the specification words it, only the row with the matched sequence number would be
  retired. With two active rows for one key in the table (a first file that holds the key
  twice), a record with that key matches the row with sequence 1, and the row with
  sequence 2 is retired as well.
\<close>

theorem retire_key_counterexample:
  "runs sqlite3_refuses [(one_file ''Day1.txt'' (join_nl [line_a, line_b, []]), ''Day1.txt'')] [] =
     Inr [new_row rec_a 1, new_row rec_b 2] \<and>
   retire_key sqlite3_refuses (new_row rec_a 1) [new_row rec_a 1, new_row rec_b 2] =
     Inr [(new_row rec_a 1)\<lparr>ACTIVE_IND := ''N''\<rparr>, (new_row rec_b 2)\<lparr>ACTIVE_IND := ''N''\<rparr>] \<and>
   match_loop sqlite3_refuses rec_a (Final_data [new_row rec_a 1, new_row rec_b 2])
       [new_row rec_a 1, new_row rec_b 2] =
     Inr (1, [(new_row rec_a 1)\<lparr>ACTIVE_IND := ''N''\<rparr>, (new_row rec_b 2)\<lparr>ACTIVE_IND := ''N''\<rparr>,
              new_row rec_a 3]) \<and>
   Sequence (new_row rec_b 2) \<noteq> Sequence (new_row rec_a 1) \<and>
   ACTIVE_IND (new_row rec_b 2) = ''Y'' \<and>
   ACTIVE_IND ((new_row rec_b 2)\<lparr>ACTIVE_IND := ''N''\<rparr>) = ''N''"
proof -
  have k: "sql_number (Transaction_Id (new_row rec_a 1))" "sql_number (Customer_Id (new_row rec_a 1))"
    "sql_number (Product_Id (new_row rec_a 1))"
    using sql_plain_keys [OF samples_sql_plain(1)] by (simp_all add: new_row_def)
  have 1: "runs sqlite3_refuses
      [(one_file ''Day1.txt'' (join_nl [line_a, line_b, []]), ''Day1.txt'')] [] =
     Inr [new_row rec_a 1, new_row rec_b 2]"
    by (simp add: processOnlineshopping_def Execute_samples Usable_row_samples Insert_all_samples
        del: Insert_all.simps)
  have 2: "retire_key sqlite3_refuses (new_row rec_a 1) [new_row rec_a 1, new_row rec_b 2] =
     Inr [(new_row rec_a 1)\<lparr>ACTIVE_IND := ''N''\<rparr>, (new_row rec_b 2)\<lparr>ACTIVE_IND := ''N''\<rparr>]"
    by (simp add: retire_key_plain k table_eval)
  have 3: "match_loop sqlite3_refuses rec_a (Final_data [new_row rec_a 1, new_row rec_b 2])
       [new_row rec_a 1, new_row rec_b 2] =
     Inr (1, [(new_row rec_a 1)\<lparr>ACTIVE_IND := ''N''\<rparr>, (new_row rec_b 2)\<lparr>ACTIVE_IND := ''N''\<rparr>,
              new_row rec_a 3])"
    by (simp add: match_loop_find Final_data_def business_key_new_row 2 Insert_plain
        samples_sql_plain table_eval del: match_loop.simps)
  show ?thesis
    by (simp only: 1 2 3) (simp add: Sequence_new_row ACTIVE_IND_new_row)
qed

section \<open>The snapshot and the match\<close>

text \<open>
  C2, as the code has it: for every batch that goes through \<open>Main_logic\<close>, the snapshot
  taken at the start of the batch is every row of the table, retired rows included, and a
  match is declared if and only if some row of the snapshot, active or retired, has the
  record's transaction id, customer id and product id; the first such row is the matched
  one: its key is pasted into the retiring \<open>UPDATE\<close>, and then the record is inserted.
  On a table that runs over plain
  records have built from the empty table, a row with the record's key exists exactly when
  an active row with that key exists.
\<close>

theorem snapshot_holds_every_row:
  "Final_data t = t \<and>
   match_loop db d fd u =
     (case find (\<lambda>j. business_key j = business_key d) fd of
        None \<Rightarrow> Inr (0, u)
      | Some j \<Rightarrow>
          (case retire_key db j u of
             Inl e \<Rightarrow> Inl e
           | Inr t1 \<Rightarrow>
               (case Insert db d t1 of
                  Inl e \<Rightarrow> Inl e
                | Inr t2 \<Rightarrow> Inr (1, t2)))) \<and>
   (match_loop db d fd u = Inr (flag, u') \<longrightarrow>
      (flag = 1 \<longleftrightarrow> (\<exists>j\<in>set fd. business_key j = business_key d)) \<and>
      (flag = 0 \<longleftrightarrow> \<not> (\<exists>j\<in>set fd. business_key j = business_key d))) \<and>
   (plain_runs rs \<and> runs db rs [] = Inr t \<longrightarrow>
      ((\<exists>j\<in>set (Final_data t). business_key j = business_key d) \<longleftrightarrow>
       active_rows (business_key d) t \<noteq> []))"
proof (intro conjI impI)
  show "Final_data t = t" by (simp add: Final_data_def)
  show "match_loop db d fd u =
     (case find (\<lambda>j. business_key j = business_key d) fd of
        None \<Rightarrow> Inr (0, u)
      | Some j \<Rightarrow>
          (case retire_key db j u of
             Inl e \<Rightarrow> Inl e
           | Inr t1 \<Rightarrow>
               (case Insert db d t1 of
                  Inl e \<Rightarrow> Inl e
                | Inr t2 \<Rightarrow> Inr (1, t2))))"
    by (rule match_loop_find)
next
  assume "match_loop db d fd u = Inr (flag, u')"
  then have "flag = (if \<exists>j\<in>set fd. business_key j = business_key d then 1 else 0)"
    by (rule match_loop_flag)
  then show "flag = 1 \<longleftrightarrow> (\<exists>j\<in>set fd. business_key j = business_key d)"
    and "flag = 0 \<longleftrightarrow> \<not> (\<exists>j\<in>set fd. business_key j = business_key d)"
    by (simp_all split: if_splits)
next
  assume "plain_runs rs \<and> runs db rs [] = Inr t"
  then have "(\<exists>j\<in>set t. business_key j = business_key d) \<longleftrightarrow>
       active_rows (business_key d) t \<noteq> []"
    using key_present_iff_active [of rs db t "business_key d"] by blast
  then show "(\<exists>j\<in>set (Final_data t). business_key j = business_key d) \<longleftrightarrow>
       active_rows (business_key d) t \<noteq> []"
    by (simp add: Final_data_def)
qed

theorem snapshot_holds_every_row_witness:
  "plain_runs [(one_file ''Day1.txt'' (join_nl [line_a, []]), ''Day1.txt''),
               (one_file ''Day2.txt'' (join_nl [line_b, []]), ''Day2.txt'')] \<and>
   runs sqlite3_refuses
     [(one_file ''Day1.txt'' (join_nl [line_a, []]), ''Day1.txt''),
      (one_file ''Day2.txt'' (join_nl [line_b, []]), ''Day2.txt'')] [] =
     Inr [(new_row rec_a 1)\<lparr>ACTIVE_IND := ''N''\<rparr>, new_row rec_b 2] \<and>
   Final_data [(new_row rec_a 1)\<lparr>ACTIVE_IND := ''N''\<rparr>, new_row rec_b 2] =
     [(new_row rec_a 1)\<lparr>ACTIVE_IND := ''N''\<rparr>, new_row rec_b 2] \<and>
   match_loop sqlite3_refuses rec_c
     (Final_data [(new_row rec_a 1)\<lparr>ACTIVE_IND := ''N''\<rparr>, new_row rec_b 2]) [] = Inr (0, []) \<and>
   active_rows (business_key rec_a) [(new_row rec_a 1)\<lparr>ACTIVE_IND := ''N''\<rparr>, new_row rec_b 2] \<noteq> []"
proof -
  let ?t = "[(new_row rec_a 1)\<lparr>ACTIVE_IND := ''N''\<rparr>, new_row rec_b 2]"
  let ?rs = "[(one_file ''Day1.txt'' (join_nl [line_a, []]), ''Day1.txt''),
              (one_file ''Day2.txt'' (join_nl [line_b, []]), ''Day2.txt'')]"
  have p: "plain_runs ?rs"
    by (simp add: plain_runs_def Execute_samples Usable_row_samples samples_sql_plain)
  have r: "runs sqlite3_refuses ?rs [] = Inr ?t"
    by (simp add: processOnlineshopping_def Execute_samples Usable_row_samples Insert_all_samples
        Main_logic_samples Final_data_def del: Insert_all.simps Main_logic.simps)
  have e: "\<exists>j\<in>set (Final_data ?t). business_key j = business_key rec_a"
    by (simp add: Final_data_def business_key_new_row business_key_ACTIVE_IND_update key_samples)
  have n: "find (\<lambda>j. business_key j = business_key rec_c) (Final_data ?t) = None"
    by (simp add: Final_data_def business_key_new_row business_key_ACTIVE_IND_update key_samples)
  from snapshot_holds_every_row [of ?t sqlite3_refuses rec_a ?t "[]" 0 "[]" ?rs] p r e
  have 1: "Final_data ?t = ?t" and 2: "active_rows (business_key rec_a) ?t \<noteq> []"
    by blast+
  from snapshot_holds_every_row [of ?t sqlite3_refuses rec_c "Final_data ?t" "[]" 0 "[]" ?rs]
  have "match_loop sqlite3_refuses rec_c (Final_data ?t) [] =
     (case find (\<lambda>j. business_key j = business_key rec_c) (Final_data ?t) of
        None \<Rightarrow> Inr (0, [])
      | Some j \<Rightarrow>
          (case retire_key sqlite3_refuses j [] of
             Inl e \<Rightarrow> Inl e
           | Inr t1 \<Rightarrow>
               (case Insert sqlite3_refuses rec_c t1 of
                  Inl e \<Rightarrow> Inl e
                | Inr t2 \<Rightarrow> Inr (1, t2))))"
    by blast
  then have 3: "match_loop sqlite3_refuses rec_c (Final_data ?t) [] = Inr (0, [])"
    by (simp only: n option.case)
  from p r 1 2 3 show ?thesis by blast
qed

text \<open>
  As the specification words it, the snapshot would hold active rows only. After a first
  file with one record and a second file with the same key, the snapshot of the table
  holds the retired row too, in the first place, where the loop finds it.
\<close>

theorem snapshot_counterexample:
  "runs sqlite3_refuses
     [(one_file ''Day1.txt'' (join_nl [line_a, []]), ''Day1.txt''),
      (one_file ''Day2.txt'' (join_nl [line_b, []]), ''Day2.txt'')] [] =
     Inr [(new_row rec_a 1)\<lparr>ACTIVE_IND := ''N''\<rparr>, new_row rec_b 2] \<and>
   map ACTIVE_IND (Final_data [(new_row rec_a 1)\<lparr>ACTIVE_IND := ''N''\<rparr>, new_row rec_b 2]) =
     [''N'', ''Y''] \<and>
   business_key (hd (Final_data [(new_row rec_a 1)\<lparr>ACTIVE_IND := ''N''\<rparr>, new_row rec_b 2])) =
     business_key rec_a \<and>
   ACTIVE_IND (hd (Final_data [(new_row rec_a 1)\<lparr>ACTIVE_IND := ''N''\<rparr>, new_row rec_b 2])) = ''N''"
  by (simp add: processOnlineshopping_def Execute_samples Usable_row_samples Insert_all_samples
      Main_logic_samples Final_data_def business_key_new_row business_key_ACTIVE_IND_update
      ACTIVE_IND_new_row del: Insert_all.simps Main_logic.simps)

section \<open>Two records with one key in a batch\<close>

text \<open>
  C1, as the code has it: for a batch of exactly two plain records with one business key,
  processed by \<open>Main_logic\<close> against a table that holds exactly one active row for that
  key, after the batch the original row is retired and two new rows for the key exist; the
  first new row is retired as well, by the key-wide \<open>UPDATE\<close> that the second record
  triggers, and the second new row is the only active row for the key: the number of
  active rows for the key is 1.
\<close>

theorem duplicate_key_in_batch:
  assumes "sql_plain a" and "sql_plain b"
    and "business_key a = business_key b"
    and "active_rows (business_key a) t = [r0]"
  shows "Main_logic db [a, b] (Final_data t) t =
           Inr (retire_rows (business_key r0) t @
                [(new_row a (next_Sequence t))\<lparr>ACTIVE_IND := ''N''\<rparr>,
                 new_row b (next_Sequence t + 1)]) \<and>
         active_rows (business_key a) (retire_rows (business_key r0) t) = [] \<and>
         active_rows (business_key a)
           (retire_rows (business_key r0) t @
            [(new_row a (next_Sequence t))\<lparr>ACTIVE_IND := ''N''\<rparr>,
             new_row b (next_Sequence t + 1)]) = [new_row b (next_Sequence t + 1)] \<and>
         length (active_rows (business_key a)
           (retire_rows (business_key r0) t @
            [(new_row a (next_Sequence t))\<lparr>ACTIVE_IND := ''N''\<rparr>,
             new_row b (next_Sequence t + 1)])) = 1"
proof -
  let ?k = "business_key a"
  have "r0 \<in> set (active_rows ?k t)" using assms(4) by simp
  then have r0: "r0 \<in> set t" "business_key r0 = ?k"
    by (simp_all add: active_rows_def)
  then obtain j where j: "find (\<lambda>j. business_key j = ?k) t = Some j"
    by (cases "find (\<lambda>j. business_key j = ?k) t") (auto simp: find_key_None)
  then have kj: "business_key j = ?k" using find_key_Some by blast
  have jb: "find (\<lambda>j. business_key j = business_key b) t = Some j"
    using j assms(3) by simp
  have step1: "retire_rows ?k (append_row a (retire_rows ?k t)) =
      retire_rows ?k t @ [(new_row a (next_Sequence t))\<lparr>ACTIVE_IND := ''N''\<rparr>]"
    by (simp add: append_row_def retire_rows_append retire_rows_idem next_Sequence_retire_rows)
       (simp add: retire_rows_map business_key_new_row)
  have ns: "next_Sequence (retire_rows ?k t @ [(new_row a (next_Sequence t))\<lparr>ACTIVE_IND := ''N''\<rparr>]) =
      next_Sequence t + 1"
    using next_Sequence_append_row [of a "retire_rows ?k t"]
    by (simp add: next_Sequence_def append_row_def Sequence_new_row next_Sequence_retire_rows
        Sequence_retire_rows)
  have "Main_logic db [a, b] (Final_data t) t = Inr (plain_logic [a, b] (Final_data t) t)"
    by (rule Main_logic_plain) (simp add: assms)
  also have "plain_logic [a, b] (Final_data t) t =
      retire_rows ?k t @
      [(new_row a (next_Sequence t))\<lparr>ACTIVE_IND := ''N''\<rparr>, new_row b (next_Sequence t + 1)]"
    using assms(3)
    by (simp add: Final_data_def j jb kj step1 [unfolded assms(3)])
       (simp add: append_row_def ns [unfolded assms(3)])
  finally have main: "Main_logic db [a, b] (Final_data t) t =
      Inr (retire_rows (business_key r0) t @
           [(new_row a (next_Sequence t))\<lparr>ACTIVE_IND := ''N''\<rparr>, new_row b (next_Sequence t + 1)])"
    by (simp add: r0)
  have none: "active_rows ?k (retire_rows (business_key r0) t) = []"
    by (simp add: r0 active_rows_retire_rows)
  have act: "active_rows ?k
           (retire_rows (business_key r0) t @
            [(new_row a (next_Sequence t))\<lparr>ACTIVE_IND := ''N''\<rparr>,
             new_row b (next_Sequence t + 1)]) = [new_row b (next_Sequence t + 1)]"
    using none assms(3)
    by (simp add: active_rows_def business_key_new_row ACTIVE_IND_new_row
        business_key_ACTIVE_IND_update)
  from main none act show ?thesis by simp
qed

theorem duplicate_key_in_batch_witness:
  "sql_plain rec_a \<and> sql_plain rec_b \<and> business_key rec_a = business_key rec_b \<and>
   active_rows (business_key rec_a) [new_row rec_a 1] = [new_row rec_a 1] \<and>
   Main_logic sqlite3_refuses [rec_a, rec_b] (Final_data [new_row rec_a 1]) [new_row rec_a 1] =
     Inr [(new_row rec_a 1)\<lparr>ACTIVE_IND := ''N''\<rparr>, (new_row rec_a 2)\<lparr>ACTIVE_IND := ''N''\<rparr>,
          new_row rec_b 3] \<and>
   active_rows (business_key rec_a)
     [(new_row rec_a 1)\<lparr>ACTIVE_IND := ''N''\<rparr>, (new_row rec_a 2)\<lparr>ACTIVE_IND := ''N''\<rparr>,
      new_row rec_b 3] = [new_row rec_b 3]"
proof -
  have k: "business_key rec_a = business_key rec_b" by (simp add: key_samples)
  have a: "active_rows (business_key rec_a) [new_row rec_a 1] = [new_row rec_a 1]"
    by (simp add: active_rows_def business_key_new_row ACTIVE_IND_new_row)
  have n: "next_Sequence [new_row rec_a 1] = 2"
    by (simp add: next_Sequence_def Sequence_new_row)
  have r: "retire_rows (business_key (new_row rec_a 1)) [new_row rec_a 1] =
      [(new_row rec_a 1)\<lparr>ACTIVE_IND := ''N''\<rparr>]"
    by (simp add: retire_rows_map)
  from duplicate_key_in_batch [OF samples_sql_plain(1) samples_sql_plain(2) k a,
      of sqlite3_refuses]
  have m: "Main_logic sqlite3_refuses [rec_a, rec_b] (Final_data [new_row rec_a 1])
        [new_row rec_a 1] =
      Inr [(new_row rec_a 1)\<lparr>ACTIVE_IND := ''N''\<rparr>, (new_row rec_a 2)\<lparr>ACTIVE_IND := ''N''\<rparr>,
           new_row rec_b 3]"
    and l: "active_rows (business_key rec_a)
      [(new_row rec_a 1)\<lparr>ACTIVE_IND := ''N''\<rparr>, (new_row rec_a 2)\<lparr>ACTIVE_IND := ''N''\<rparr>,
       new_row rec_b 3] = [new_row rec_b 3]"
    by (simp_all only: n r) simp_all
  from samples_sql_plain(1) samples_sql_plain(2) k a m l show ?thesis by blast
qed

text \<open>
  As the specification words it, both new rows would be active. After a first file with
  one record, a second file with two records of the same key leaves the indicators
  \<open>N\<close>, \<open>N\<close>, \<open>Y\<close>: one active row for the key, not two.
\<close>

theorem duplicate_key_in_batch_counterexample:
  "runs sqlite3_refuses [(one_file ''Day1.txt'' (join_nl [line_a, []]), ''Day1.txt'')] [] =
     Inr [new_row rec_a 1] \<and>
   active_rows (business_key rec_a) [new_row rec_a 1] = [new_row rec_a 1] \<and>
   business_key rec_b = business_key rec_a \<and>
   runs sqlite3_refuses
     [(one_file ''Day2.txt'' (join_nl [line_a, line_b, []]), ''Day2.txt'')] [new_row rec_a 1] =
     Inr [(new_row rec_a 1)\<lparr>ACTIVE_IND := ''N''\<rparr>, (new_row rec_a 2)\<lparr>ACTIVE_IND := ''N''\<rparr>,
          new_row rec_b 3] \<and>
   active_rows (business_key rec_a)
     [(new_row rec_a 1)\<lparr>ACTIVE_IND := ''N''\<rparr>, (new_row rec_a 2)\<lparr>ACTIVE_IND := ''N''\<rparr>,
      new_row rec_b 3] = [new_row rec_b 3] \<and>
   length (active_rows (business_key rec_a)
     [(new_row rec_a 1)\<lparr>ACTIVE_IND := ''N''\<rparr>, (new_row rec_a 2)\<lparr>ACTIVE_IND := ''N''\<rparr>,
      new_row rec_b 3]) \<noteq> 2"
  by (simp add: processOnlineshopping_def Execute_samples Usable_row_samples Insert_all_samples
      Main_logic_samples Final_data_def active_rows_def business_key_new_row
      business_key_ACTIVE_IND_update ACTIVE_IND_new_row key_samples
      del: Insert_all.simps Main_logic.simps)

section \<open>The baseline path\<close>

text \<open>
  C6: on an empty table the baseline path (insert every record, no lookup, no retirement)
  and the general path (\<open>Main_logic\<close> against the snapshot of the empty table) give the
  same table, for every batch; so \<open>processOnlineshopping\<close> on an empty table gives the
  same result under any file name as under \<open>Day1.txt\<close>, for the same text.
\<close>

theorem baseline_is_Main_logic_on_empty_table:
  "Main_logic db lst (Final_data []) [] = Insert_all db lst [] \<and>
   processOnlineshopping db (one_file file_name text) file_name [] =
     processOnlineshopping db (one_file ''Day1.txt'' text) ''Day1.txt'' []"
  by (simp add: processOnlineshopping_def Execute_one_file Final_data_def Main_logic_Nil_snapshot
      Let_def)

theorem baseline_is_Main_logic_on_empty_table_witness:
  "Main_logic sqlite3_refuses [rec_a, rec_c] (Final_data []) [] =
     Insert_all sqlite3_refuses [rec_a, rec_c] [] \<and>
   Insert_all sqlite3_refuses [rec_a, rec_c] [] = Inr [new_row rec_a 1, new_row rec_c 2] \<and>
   map ACTIVE_IND [new_row rec_a 1, new_row rec_c 2] = [''Y'', ''Y'']"
  using baseline_is_Main_logic_on_empty_table [of sqlite3_refuses "[rec_a, rec_c]" "''Day2.txt''" "[]"]
  by (simp add: Insert_all_samples ACTIVE_IND_new_row del: Insert_all.simps Main_logic.simps)

text \<open>
  C10: the baseline path is taken exactly when the file name is \<open>Day1.txt\<close>, whatever
  the table holds. Under \<open>Day1.txt\<close> every record is inserted and the rows that were in
  the table stay as they were, also when the table is not empty and holds the same keys;
  under any other name the batch goes through \<open>Main_logic\<close> with the snapshot of the
  table, also when the table is empty.
\<close>

theorem baseline_iff_Day1:
  "processOnlineshopping db fs ''Day1.txt'' t =
     (case Execute fs ''Day1.txt'' of
        Inl e \<Rightarrow> Inl e
      | Inr data \<Rightarrow> Insert_all db (Usable data) t) \<and>
   (file_name \<noteq> ''Day1.txt'' \<longrightarrow>
      processOnlineshopping db fs file_name t =
        (case Execute fs file_name of
           Inl e \<Rightarrow> Inl e
         | Inr data \<Rightarrow> Main_logic db (Usable data) (Final_data t) t)) \<and>
   (Insert_all db lst t = Inr t' \<longrightarrow> take (length t) t' = t)"
  by (simp add: processOnlineshopping_def Insert_all_prefix Let_def split: sum.splits)

theorem baseline_iff_Day1_witness:
  "''Day2.txt'' \<noteq> ''Day1.txt'' \<and>
   processOnlineshopping sqlite3_refuses (one_file ''Day1.txt'' (join_nl [line_b, []])) ''Day1.txt''
       [new_row rec_a 1] = Inr [new_row rec_a 1, new_row rec_b 2] \<and>
   processOnlineshopping sqlite3_refuses (one_file ''Day2.txt'' (join_nl [line_b, []])) ''Day2.txt''
       [new_row rec_a 1] = Inr [(new_row rec_a 1)\<lparr>ACTIVE_IND := ''N''\<rparr>, new_row rec_b 2] \<and>
   processOnlineshopping sqlite3_refuses (one_file ''Day2.txt'' (join_nl [line_b, []])) ''Day2.txt''
       [] = Inr [new_row rec_b 1] \<and>
   take (length [new_row rec_a 1]) [new_row rec_a 1, new_row rec_b 2] = [new_row rec_a 1]"
  using
    baseline_iff_Day1 [of sqlite3_refuses "one_file ''Day1.txt'' (join_nl [line_b, []])"
      "[new_row rec_a 1]" "''Day2.txt''" "[rec_b]" "[new_row rec_a 1, new_row rec_b 2]"]
    baseline_iff_Day1 [of sqlite3_refuses "one_file ''Day2.txt'' (join_nl [line_b, []])"
      "[new_row rec_a 1]" "''Day2.txt''" "[]" "[new_row rec_a 1]"]
    baseline_iff_Day1 [of sqlite3_refuses "one_file ''Day2.txt'' (join_nl [line_b, []])" "[]"
      "''Day2.txt''" "[]" "[]"]
  by (simp add: Execute_samples Usable_row_samples Final_data_def Insert_all_samples
      Main_logic_samples del: Insert_all.simps Main_logic.simps)

section \<open>Sequence numbers and the rows that stay\<close>

text \<open>
  C7: over the lifetime of the table, that is after any sequence of runs that starts from
  the empty table and after any further runs, the sequence numbers increase strictly in the
  order of insertion, no number occurs twice, and the rows that were there keep their
  numbers.
\<close>

theorem Sequence_strictly_increasing:
  assumes "runs db rs [] = Inr t" and "runs db rs' t = Inr t'"
  shows "sorted_wrt (<) (map Sequence t) \<and> sorted_wrt (<) (map Sequence t') \<and>
         distinct (map Sequence t') \<and> take (length t) (map Sequence t') = map Sequence t"
proof -
  have s: "sorted_wrt (<) (map Sequence t)"
    using keeps_rows_runs [OF assms(1)] by (simp add: keeps_rows_def)
  have k: "keeps_rows t t'"
    using assms(2) by (rule keeps_rows_runs)
  have s': "sorted_wrt (<) (map Sequence t')"
    using k s by (auto simp: keeps_rows_def)
  have "distinct (map Sequence t')"
    using s' by (simp add: strict_sorted_iff)
  with s s' k show ?thesis by (simp add: keeps_rows_def)
qed

theorem Sequence_strictly_increasing_witness:
  "runs sqlite3_refuses [(one_file ''Day1.txt'' (join_nl [line_a, []]), ''Day1.txt'')] [] =
     Inr [new_row rec_a 1] \<and>
   runs sqlite3_refuses
     [(one_file ''Day2.txt'' (join_nl [line_b, line_c, []]), ''Day2.txt''),
      (one_file ''Day3.txt'' (join_nl [line_a, []]), ''Day3.txt'')] [new_row rec_a 1] =
     Inr [(new_row rec_a 1)\<lparr>ACTIVE_IND := ''N''\<rparr>, (new_row rec_b 2)\<lparr>ACTIVE_IND := ''N''\<rparr>,
          new_row rec_c 3, new_row rec_a 4] \<and>
   sorted_wrt (<)
     (map Sequence
        [(new_row rec_a 1)\<lparr>ACTIVE_IND := ''N''\<rparr>, (new_row rec_b 2)\<lparr>ACTIVE_IND := ''N''\<rparr>,
         new_row rec_c 3, new_row rec_a 4]) \<and>
   take (length [new_row rec_a 1])
     (map Sequence
        [(new_row rec_a 1)\<lparr>ACTIVE_IND := ''N''\<rparr>, (new_row rec_b 2)\<lparr>ACTIVE_IND := ''N''\<rparr>,
         new_row rec_c 3, new_row rec_a 4]) = map Sequence [new_row rec_a 1]"
proof -
  have r1: "runs sqlite3_refuses [(one_file ''Day1.txt'' (join_nl [line_a, []]), ''Day1.txt'')] [] =
      Inr [new_row rec_a 1]"
    by (simp add: processOnlineshopping_def Execute_samples Usable_row_samples Insert_all_samples
        del: Insert_all.simps)
  have r2: "runs sqlite3_refuses
     [(one_file ''Day2.txt'' (join_nl [line_b, line_c, []]), ''Day2.txt''),
      (one_file ''Day3.txt'' (join_nl [line_a, []]), ''Day3.txt'')] [new_row rec_a 1] =
     Inr [(new_row rec_a 1)\<lparr>ACTIVE_IND := ''N''\<rparr>, (new_row rec_b 2)\<lparr>ACTIVE_IND := ''N''\<rparr>,
          new_row rec_c 3, new_row rec_a 4]"
    by (simp add: processOnlineshopping_def Execute_samples Usable_row_samples Final_data_def
        Main_logic_samples del: Main_logic.simps)
  from Sequence_strictly_increasing [OF r1 r2] r1 r2 show ?thesis
    by blast
qed

text \<open>
  C8: no row is deleted. For every sequence of runs from any table, the table afterwards
  has at least as many rows as before, and every row that was there is still there under
  its sequence number, at its place.
\<close>

theorem rows_never_deleted:
  assumes "runs db rs t = Inr t'"
  shows "length t \<le> length t' \<and> take (length t) (map Sequence t') = map Sequence t \<and>
         (\<forall>r\<in>set t. \<exists>r'\<in>set t'. Sequence r' = Sequence r)"
proof -
  from keeps_rows_runs [OF assms] have len: "length t \<le> length t'"
    and pre: "take (length t) (map Sequence t') = map Sequence t"
    by (simp_all add: keeps_rows_def)
  have "\<exists>r'\<in>set t'. Sequence r' = Sequence r" if "r \<in> set t" for r
  proof -
    from that have "Sequence r \<in> set (map Sequence t)" by simp
    then have "Sequence r \<in> set (take (length t) (map Sequence t'))" by (simp only: pre)
    then have "Sequence r \<in> set (map Sequence t')" by (rule in_set_takeD)
    then show ?thesis by auto
  qed
  with len pre show ?thesis by blast
qed

theorem rows_never_deleted_witness:
  "runs sqlite3_refuses
     [(one_file ''Day2.txt'' (join_nl [line_b, line_c, []]), ''Day2.txt'')] [new_row rec_a 1] =
     Inr [(new_row rec_a 1)\<lparr>ACTIVE_IND := ''N''\<rparr>, new_row rec_b 2, new_row rec_c 3] \<and>
   length [new_row rec_a 1] \<le>
     length [(new_row rec_a 1)\<lparr>ACTIVE_IND := ''N''\<rparr>, new_row rec_b 2, new_row rec_c 3] \<and>
   take (length [new_row rec_a 1])
     (map Sequence [(new_row rec_a 1)\<lparr>ACTIVE_IND := ''N''\<rparr>, new_row rec_b 2, new_row rec_c 3]) =
     map Sequence [new_row rec_a 1]"
proof -
  have r: "runs sqlite3_refuses
      [(one_file ''Day2.txt'' (join_nl [line_b, line_c, []]), ''Day2.txt'')] [new_row rec_a 1] =
     Inr [(new_row rec_a 1)\<lparr>ACTIVE_IND := ''N''\<rparr>, new_row rec_b 2, new_row rec_c 3]"
    by (simp add: processOnlineshopping_def Execute_samples Usable_row_samples Final_data_def
        Main_logic_samples del: Main_logic.simps)
  from rows_never_deleted [OF r] r show ?thesis
    by blast
qed

section \<open>A batch applied again\<close>




end
